theory Spec2Isabelle
  imports Main
begin

section \<open>Data model of clean-native-props.ts\<close>

text \<open>
  Optional string fields of the TypeScript interfaces are modelled as plain strings in
  which the empty string stands for an absent field: every use in the source goes
  through a truthiness test (\<open>m.property && m.value\<close>, \<open>mapping.mappedProperty || ""\<close>,
  \<open>mapping.mappedValue || "None"\<close>, \<open>mapping._reason || "..."\<close>), and the empty string
  and \<open>undefined\<close> are both falsy.
\<close>

datatype action = ActMap | ActRemove | ActMapToWidgetProperty

record PropertyMappingV2 =
  property :: string
  pvalue :: string
  elementTypes :: "string list"
  action :: action
  mappedProperty :: string
  mappedValue :: string
  mappedDirection :: string
  mappedType :: string
  widgetProperty :: string
  widgetValue :: string
  reason :: string

text \<open>
  The two global lookup structures: \<open>MAPPINGS_LOOKUP\<close>, a \<open>Map\<close> from the key string
  \<open>property|value|elementType\<close> to a mapping, and \<open>MAPPED_PROPERTY_NAMES\<close>, the set of
  property names that have a mapping.
\<close>

record index =
  MAPPINGS_LOOKUP :: "string \<rightharpoonup> PropertyMappingV2"
  MAPPED_PROPERTY_NAMES :: "string set"

definition empty_index :: index where
  "empty_index = \<lparr>MAPPINGS_LOOKUP = Map.empty, MAPPED_PROPERTY_NAMES = {}\<rparr>"

section \<open>Rule catalog: loadMappings\<close>

text \<open>The template literal \<open>`${property}|${value}|${elementType}`\<close>.\<close>

definition lookup_key :: "string \<Rightarrow> string \<Rightarrow> string \<Rightarrow> string" where
  "lookup_key p v t = p @ ''|'' @ v @ ''|'' @ t"

text \<open>\<open>mappingsFile.mappings.filter(m => m.property && m.value)\<close>\<close>

definition not_comment :: "PropertyMappingV2 \<Rightarrow> bool" where
  "not_comment m \<longleftrightarrow> property m \<noteq> [] \<and> pvalue m \<noteq> []"

text \<open>
  The body of the outer loop of \<open>loadMappings\<close>: add the property name, then
  \<open>MAPPINGS_LOOKUP.set(key, mapping)\<close> for each element type of the mapping, in order.
\<close>

definition set_keys :: "PropertyMappingV2 \<Rightarrow> (string \<rightharpoonup> PropertyMappingV2) \<Rightarrow> (string \<rightharpoonup> PropertyMappingV2)" where
  "set_keys m L = fold (\<lambda>t L'. L'(lookup_key (property m) (pvalue m) t \<mapsto> m)) (elementTypes m) L"

definition add_mapping :: "PropertyMappingV2 \<Rightarrow> index \<Rightarrow> index" where
  "add_mapping m ix =
     \<lparr>MAPPINGS_LOOKUP = set_keys m (MAPPINGS_LOOKUP ix),
      MAPPED_PROPERTY_NAMES = insert (property m) (MAPPED_PROPERTY_NAMES ix)\<rparr>"

definition build_index :: "PropertyMappingV2 list \<Rightarrow> index" where
  "build_index ms = fold add_mapping (filter not_comment ms) empty_index"

text \<open>
  \<open>loadMappings\<close> returns \<open>false\<close> when the file is missing or does not parse; the
  argument is the \<open>mappings\<close> array of the parsed file, \<open>None\<close> in that case.
\<close>

definition loadMappings :: "PropertyMappingV2 list option \<Rightarrow> index option" where
  "loadMappings file = (case file of None \<Rightarrow> None | Some ms \<Rightarrow> Some (build_index ms))"

section \<open>Rule resolver: findMapping\<close>

definition findMapping :: "index \<Rightarrow> string \<Rightarrow> string \<Rightarrow> string \<Rightarrow> PropertyMappingV2 option" where
  "findMapping ix p v elementType =
     (let specificKey = lookup_key p v elementType in
      case MAPPINGS_LOOKUP ix specificKey of
        Some mapping \<Rightarrow> Some mapping
      | None \<Rightarrow>
          (let wildcardKey = lookup_key p v ''*'' in
           MAPPINGS_LOOKUP ix wildcardKey))"

text \<open>The keys under which the loop of \<open>loadMappings\<close> stores a mapping.\<close>

definition produces_key :: "PropertyMappingV2 \<Rightarrow> string \<Rightarrow> bool" where
  "produces_key m k \<longleftrightarrow> k \<in> set (map (lookup_key (property m) (pvalue m)) (elementTypes m))"

section \<open>Design properties\<close>

text \<open>
  The value of a design property, by the cases \<open>extractPropertyValue\<close> distinguishes:
  \<open>undefined\<close>/\<open>null\<close>, an \<open>OptionDesignPropertyValue\<close> with its option, a
  \<open>CompoundDesignPropertyValue\<close> with its inner properties (key and value), a
  \<open>ToggleDesignPropertyValue\<close>, a boolean, a number and any other value (both carrying
  the text \<open>String(value)\<close> gives), and a string.
\<close>

datatype dvalue =
    VNull
  | VOption string
  | VCompound "(string \<times> dvalue) list"
  | VToggle
  | VBoolean bool
  | VNumber string
  | VString string
  | VOther string

record DesignPropertyValue =
  key :: string
  dvalue :: dvalue

fun extractValue :: "dvalue \<Rightarrow> string" where
  "extractValue VNull = []"
| "extractValue (VOption opt) = opt"
| "extractValue (VCompound ps) = ''[Compound]''"
| "extractValue VToggle = ''true''"
| "extractValue (VBoolean b) = (if b then ''true'' else ''false'')"
| "extractValue (VNumber s) = s"
| "extractValue (VString s) = s"
| "extractValue (VOther s) = s"

definition extractPropertyValue :: "DesignPropertyValue \<Rightarrow> string" where
  "extractPropertyValue prop = extractValue (dvalue prop)"

text \<open>
  Design properties are objects: the lists \<open>toModify\<close>, \<open>toRemove\<close>, ... hold references
  to them, and \<open>propertiesList.indexOf(prop)\<close> and \<open>propertiesList.remove(prop)\<close> compare
  by identity. A property list is a list of objects, each with its identity.
\<close>

type_synonym ref = nat

type_synonym property_list = "(ref \<times> DesignPropertyValue) list"

text \<open>\<open>if (list.indexOf(prop) >= 0) list.remove(prop)\<close>: the first occurrence goes.\<close>

fun remove_ref :: "ref \<Rightarrow> property_list \<Rightarrow> property_list" where
  "remove_ref r [] = []"
| "remove_ref r (x # xs) = (if fst x = r then xs else x # remove_ref r xs)"

text \<open>An in-place change of the object \<open>r\<close>, seen wherever the list holds that object.\<close>

definition update_ref :: "ref \<Rightarrow> (DesignPropertyValue \<Rightarrow> DesignPropertyValue) \<Rightarrow> property_list \<Rightarrow> property_list" where
  "update_ref r f xs = map (\<lambda>x. if fst x = r then (fst x, f (snd x)) else x) xs"

text \<open>The identity of a newly created object differs from every object of the list.\<close>

definition fresh_ref :: "property_list \<Rightarrow> ref" where
  "fresh_ref xs = Suc (fold max (map fst xs) 0)"

section \<open>Spacing aggregation\<close>

text \<open>
  A side object \<open>{ top, right, bottom, left }\<close> is a JavaScript object written by a
  computed key (\<open>baseState[type][dir] = val\<close>), so it is a map from key to string; a key
  other than the four sides is stored too and never read back by the materialisation.
  Keys that name members of \<open>Object.prototype\<close> are outside this model.
\<close>

record SpacingState =
  margin :: "string \<rightharpoonup> string"
  padding :: "string \<rightharpoonup> string"

definition none_sides :: "string \<rightharpoonup> string" where
  "none_sides = [''top'' \<mapsto> ''None'', ''right'' \<mapsto> ''None'', ''bottom'' \<mapsto> ''None'', ''left'' \<mapsto> ''None'']"

definition none_state :: SpacingState where
  "none_state = \<lparr>margin = none_sides, padding = none_sides\<rparr>"

text \<open>\<open>key.split("-")\<close>\<close>

fun split_on :: "char \<Rightarrow> string \<Rightarrow> string list" where
  "split_on c [] = [[]]"
| "split_on c (x # xs) =
     (if x = c then [] # split_on c xs
      else (case split_on c xs of [] \<Rightarrow> [[x]] | p # ps \<Rightarrow> (x # p) # ps))"

definition is_side :: "string \<Rightarrow> bool" where
  "is_side d \<longleftrightarrow> d = ''top'' \<or> d = ''right'' \<or> d = ''bottom'' \<or> d = ''left''"

text \<open>
  One iteration of the loop of \<open>parseSpacingState\<close> over \<open>val.properties\<close>. An entry
  without key, without value, with a value that is not an option value or with an empty
  option is passed over (\<open>continue\<close>); so is a key that does not split into a kind and a
  side.
\<close>

definition parse_entry :: "string \<times> dvalue \<Rightarrow> SpacingState \<Rightarrow> SpacingState" where
  "parse_entry entry st =
     (let k = fst entry; propValue = snd entry in
      if k = [] then st
      else case propValue of
        VOption opt \<Rightarrow>
          if opt = [] then st
          else (case split_on CHR ''-'' k of
                  [type, direction] \<Rightarrow>
                    if (type = ''margin'' \<or> type = ''padding'') \<and> is_side direction
                    then (if type = ''margin''
                          then st\<lparr>margin := (margin st)(direction \<mapsto> opt)\<rparr>
                          else st\<lparr>padding := (padding st)(direction \<mapsto> opt)\<rparr>)
                    else st
                | _ \<Rightarrow> st)
      | _ \<Rightarrow> st)"

text \<open>\<open>undefined\<close> is \<open>None\<close>: no property, no value, or a value that is not compound.\<close>

definition parseSpacingState :: "DesignPropertyValue option \<Rightarrow> SpacingState option" where
  "parseSpacingState prop =
     (case prop of
        None \<Rightarrow> None
      | Some p \<Rightarrow>
          (case dvalue p of
             VCompound entries \<Rightarrow> Some (fold parse_entry entries none_state)
           | _ \<Rightarrow> None))"

datatype spacing_type = Margin | Padding

definition type_name :: "spacing_type \<Rightarrow> string" where
  "type_name t = (case t of Margin \<Rightarrow> ''margin'' | Padding \<Rightarrow> ''padding'')"

text \<open>An entry of \<open>spacingPropertiesToMap\<close>; \<open>s_ref\<close> and \<open>s_prop\<close> are the property object.\<close>

record spacing_item =
  s_ref :: ref
  s_prop :: DesignPropertyValue
  s_mapping :: PropertyMappingV2
  direction :: string
  spacingType :: spacing_type

text \<open>
  The line the loop over \<open>spacingPropertiesToMap\<close> prints for an item:
  \<open>Mapping: "key"="value" \<rightarrow> Spacing type.dir="val"\<close>, followed by \<open>(was: oldVal)\<close>
  when \<open>log_was\<close> is \<open>Some oldVal\<close>.
\<close>

record mapping_log =
  log_key :: string
  log_value :: string
  log_type :: string
  log_dir :: string
  log_val :: string
  log_was :: "string option"

definition layer :: "spacing_type \<Rightarrow> SpacingState \<Rightarrow> (string \<rightharpoonup> string)" where
  "layer t st = (case t of Margin \<Rightarrow> margin st | Padding \<Rightarrow> padding st)"

definition set_layer :: "spacing_type \<Rightarrow> (string \<rightharpoonup> string) \<Rightarrow> SpacingState \<Rightarrow> SpacingState" where
  "set_layer t m st = (case t of Margin \<Rightarrow> st\<lparr>margin := m\<rparr> | Padding \<Rightarrow> st\<lparr>padding := m\<rparr>)"

text \<open>How a template literal prints a value that may be \<open>undefined\<close>.\<close>

definition show_undefined :: "string option \<Rightarrow> string" where
  "show_undefined v = (case v of None \<Rightarrow> ''undefined'' | Some s \<Rightarrow> s)"

text \<open>
  The loop "Overwrite with mapped Native values". For an item: the side
  \<open>item.direction || "top"\<close>, the value \<open>item.mapping.mappedValue || "None"\<close>, the
  assignment \<open>baseState[type][dir] = val\<close>, and the line printed, whose \<open>(was: ...)\<close>
  part is there when \<open>oldVal !== val\<close> for the value \<open>oldVal\<close> read before the
  assignment.
\<close>

definition item_dir :: "spacing_item \<Rightarrow> string" where
  "item_dir item = (if direction item = [] then ''top'' else direction item)"

definition item_val :: "spacing_item \<Rightarrow> string" where
  "item_val item = (if mappedValue (s_mapping item) = [] then ''None'' else mappedValue (s_mapping item))"

definition overwrite :: "spacing_item \<Rightarrow> SpacingState \<Rightarrow> SpacingState" where
  "overwrite item baseState =
     set_layer (spacingType item)
       ((layer (spacingType item) baseState)(item_dir item \<mapsto> item_val item)) baseState"

definition mapping_line :: "spacing_item \<Rightarrow> SpacingState \<Rightarrow> mapping_log" where
  "mapping_line item baseState =
     (let oldVal = layer (spacingType item) baseState (item_dir item) in
      \<lparr>log_key = key (s_prop item), log_value = extractPropertyValue (s_prop item),
       log_type = type_name (spacingType item), log_dir = item_dir item, log_val = item_val item,
       log_was = (if oldVal \<noteq> Some (item_val item) then Some (show_undefined oldVal) else None)\<rparr>)"

definition apply_item :: "spacing_item \<Rightarrow> SpacingState \<times> mapping_log list \<Rightarrow> SpacingState \<times> mapping_log list" where
  "apply_item item acc = (overwrite item (fst acc), snd acc @ [mapping_line item (fst acc)])"

text \<open>
  \<open>Object.assign(baseState.margin, parsed.margin)\<close> and the same for padding, when the
  widget has a "Spacing" property that parses.
\<close>

definition seed_state :: "DesignPropertyValue option \<Rightarrow> SpacingState" where
  "seed_state existingSpacingProp =
     (case existingSpacingProp of
        None \<Rightarrow> none_state
      | Some p \<Rightarrow>
          (case parseSpacingState (Some p) of
             None \<Rightarrow> none_state
           | Some parsed \<Rightarrow>
               \<lparr>margin = none_sides ++ margin parsed, padding = none_sides ++ padding parsed\<rparr>))"

definition merge_spacing :: "DesignPropertyValue option \<Rightarrow> spacing_item list \<Rightarrow> SpacingState \<times> mapping_log list" where
  "merge_spacing existingSpacingProp items = fold apply_item items (seed_state existingSpacingProp, [])"

text \<open>\<open>addInnerProp\<close>: nothing is created for the value "None".\<close>

definition addInnerProp :: "string \<Rightarrow> string \<Rightarrow> (string \<times> dvalue) list" where
  "addInnerProp k val = (if val = ''None'' then [] else [(k, VOption val)])"

text \<open>
  Reading \<open>baseState.margin.top\<close>. The four side keys are always present (they are set by
  the initial state and never deleted), so the \<open>undefined\<close> case is not reached.
\<close>

definition side_val :: "(string \<rightharpoonup> string) \<Rightarrow> string \<Rightarrow> string" where
  "side_val m d = show_undefined (m d)"

text \<open>The key of a slot in the compound value: \<open>margin-top\<close>, ..., \<open>padding-left\<close>.\<close>

definition slot_key :: "spacing_type \<Rightarrow> string \<Rightarrow> string" where
  "slot_key t d = type_name t @ ''-'' @ d"

text \<open>The inner properties of the new compound value, in the order they are created.\<close>

definition materialize :: "SpacingState \<Rightarrow> (string \<times> dvalue) list" where
  "materialize baseState =
     addInnerProp ''margin-top'' (side_val (margin baseState) ''top'') @
     addInnerProp ''margin-right'' (side_val (margin baseState) ''right'') @
     addInnerProp ''margin-bottom'' (side_val (margin baseState) ''bottom'') @
     addInnerProp ''margin-left'' (side_val (margin baseState) ''left'') @
     addInnerProp ''padding-top'' (side_val (padding baseState) ''top'') @
     addInnerProp ''padding-right'' (side_val (padding baseState) ''right'') @
     addInnerProp ''padding-bottom'' (side_val (padding baseState) ''bottom'') @
     addInnerProp ''padding-left'' (side_val (padding baseState) ''left'')"

text \<open>The compound "Spacing" value the aggregation writes for a widget.\<close>

definition aggregate :: "DesignPropertyValue option \<Rightarrow> spacing_item list \<Rightarrow> DesignPropertyValue" where
  "aggregate existingSpacingProp items =
     \<lparr>key = ''Spacing'', dvalue = VCompound (materialize (fst (merge_spacing existingSpacingProp items)))\<rparr>"

section \<open>Element processor: processWidget\<close>

record ProcessingResult =
  widgets :: nat
  props :: nat
  mapped :: nat
  removed :: nat
  widgetPropsMapped :: nat
  skipped :: nat
  skippedNativeLayouts :: nat

definition zero_result :: ProcessingResult where
  "zero_result = \<lparr>widgets = 0, props = 0, mapped = 0, removed = 0, widgetPropsMapped = 0,
                    skipped = 0, skippedNativeLayouts = 0\<rparr>"

datatype csv_action = Mapped | Removed | Skipped | WidgetPropertySet

text \<open>A row of the audit report; an absent optional field is the empty string.\<close>

record CsvDataRow =
  csv_element :: string
  csv_elementType :: string
  csv_document :: string
  csv_module :: string
  csv_property :: string
  csv_value :: string
  csv_action :: csv_action
  csv_mappedProperty :: string
  csv_mappedValue :: string
  csv_reason :: string

text \<open>
  A widget: the members \<open>processWidget\<close> and \<open>getWidgetTypeName\<close> read (an absent
  one is the empty string), whether it is a \<open>pages.ActionButton\<close>, the list
  \<open>widget.appearance.designProperties\<close> (the empty list when there is no appearance),
  and every other member that \<open>applyWidgetPropertyMapping\<close> assigns, as a map from
  member name to value.
\<close>

record Widget =
  name :: string
  structureTypeName :: string
  widgetId :: string
  constructorName :: string
  isActionButton :: bool
  designProperties :: property_list
  widgetProps :: "string \<rightharpoonup> string"

definition TARGET_ELEMENT_TYPES :: "string set" where
  "TARGET_ELEMENT_TYPES =
     {''DynamicText'', ''DivContainer'', ''StaticImageViewer'', ''ListView'', ''ActionButton'',
      ''ReferenceSelector'', ''DropDown'', ''InputReferenceSetSelector'', ''CheckBox'',
      ''com.mendix.widget.native.badge.Badge'', ''TextArea'', ''ImageViewer'', ''Text''}"

definition getWidgetTypeName :: "Widget \<Rightarrow> string" where
  "getWidgetTypeName widget =
     (let structTypeName = structureTypeName widget in
      if structTypeName \<noteq> [] then
        (let parts = split_on CHR ''$'' structTypeName in
         if length parts > 1 then parts ! 1 else structTypeName)
      else if widgetId widget \<noteq> [] then widgetId widget
      else constructorName widget)"

text \<open>The local variables of \<open>processWidget\<close> that the analysis loop updates.\<close>

record analysis =
  result :: ProcessingResult
  toModify :: "(ref \<times> PropertyMappingV2) list"
  toRemove :: "ref list"
  toSetWidgetProp :: "(ref \<times> PropertyMappingV2) list"
  skippedProps :: "(string \<times> string \<times> string) list"
  mappedTargetProperties :: "string set"
  spacingPropertiesToMap :: "spacing_item list"
  csvData :: "CsvDataRow list"

definition init_analysis :: "CsvDataRow list \<Rightarrow> analysis" where
  "init_analysis csv =
     \<lparr>result = zero_result, toModify = [], toRemove = [], toSetWidgetProp = [], skippedProps = [],
      mappedTargetProperties = {}, spacingPropertiesToMap = [], csvData = csv\<rparr>"

text \<open>What identifies the widget in an audit row.\<close>

record row_context =
  widgetName :: string
  widgetType :: string
  docName :: string
  moduleName :: string

definition csv_row :: "row_context \<Rightarrow> string \<Rightarrow> string \<Rightarrow> csv_action \<Rightarrow> string \<Rightarrow> string \<Rightarrow> string \<Rightarrow> CsvDataRow" where
  "csv_row c propKey propValue act mp mv rsn =
     \<lparr>csv_element = widgetName c, csv_elementType = widgetType c, csv_document = docName c,
      csv_module = moduleName c, csv_property = propKey, csv_value = propValue, csv_action = act,
      csv_mappedProperty = mp, csv_mappedValue = mv, csv_reason = rsn\<rparr>"

text \<open>\<open>`Duplicate target '${targetProp}' - collision with prioritized mapping`\<close>\<close>

definition collision_reason :: "string \<Rightarrow> string" where
  "collision_reason targetProp =
     ''Duplicate target '' @ [CHR 0x27] @ targetProp @ [CHR 0x27] @ '' - collision with prioritized mapping''"

text \<open>\<open>s || d\<close> on strings.\<close>

definition or_else :: "string \<Rightarrow> string \<Rightarrow> string" where
  "or_else s d = (if s = [] then d else s)"

text \<open>The branch of the analysis loop for a property that has a mapping.\<close>

definition apply_rule :: "row_context \<Rightarrow> ref \<times> DesignPropertyValue \<Rightarrow> string \<Rightarrow> PropertyMappingV2 \<Rightarrow> analysis \<Rightarrow> analysis" where
  "apply_rule c p propValue mapping st =
     (let propKey = key (snd p) in
      case action mapping of
        ActRemove \<Rightarrow>
          st\<lparr>toRemove := toRemove st @ [fst p],
             result := (result st)\<lparr>removed := removed (result st) + 1\<rparr>,
             csvData := csvData st @
               [csv_row c propKey propValue Removed [] [] (or_else (reason mapping) ''No Web equivalent'')]\<rparr>
      | ActMap \<Rightarrow>
          if mappedProperty mapping = ''Spacing'' \<and> mappedDirection mapping \<noteq> [] then
            st\<lparr>spacingPropertiesToMap := spacingPropertiesToMap st @
                 [\<lparr>s_ref = fst p, s_prop = snd p, s_mapping = mapping,
                   direction = mappedDirection mapping,
                   spacingType = (if mappedType mapping = ''padding'' then Padding else Margin)\<rparr>]\<rparr>
          else
            (let targetProp = mappedProperty mapping in
             if targetProp \<noteq> [] \<and> targetProp \<in> mappedTargetProperties st then
               st\<lparr>toRemove := toRemove st @ [fst p],
                  result := (result st)\<lparr>removed := removed (result st) + 1\<rparr>,
                  csvData := csvData st @
                    [csv_row c propKey propValue Removed [] [] (collision_reason targetProp)]\<rparr>
             else
               st\<lparr>mappedTargetProperties :=
                    (if targetProp \<noteq> [] then insert targetProp (mappedTargetProperties st)
                     else mappedTargetProperties st),
                  toModify := toModify st @ [(fst p, mapping)],
                  result := (result st)\<lparr>mapped := mapped (result st) + 1\<rparr>,
                  csvData := csvData st @
                    [csv_row c propKey propValue Mapped (mappedProperty mapping) (mappedValue mapping) []]\<rparr>)
      | ActMapToWidgetProperty \<Rightarrow>
          st\<lparr>toSetWidgetProp := toSetWidgetProp st @ [(fst p, mapping)],
             result := (result st)\<lparr>widgetPropsMapped := widgetPropsMapped (result st) + 1\<rparr>,
             csvData := csvData st @
               [csv_row c propKey propValue WidgetPropertySet (widgetProperty mapping) (widgetValue mapping)
                  (or_else (reason mapping) ''Mapped to widget property'')]\<rparr>)"

text \<open>One iteration of the analysis loop \<open>for (const prop of propertiesList)\<close>.\<close>

definition analyse_prop :: "index \<Rightarrow> row_context \<Rightarrow> ref \<times> DesignPropertyValue \<Rightarrow> analysis \<Rightarrow> analysis" where
  "analyse_prop ix c p st =
     (let propKey = key (snd p) in
      if propKey = [] then st
      else if propKey \<notin> MAPPED_PROPERTY_NAMES ix then st
      else
        (let propValue = extractPropertyValue (snd p) in
         if propValue = [] then st
         else
           (let st1 = st\<lparr>result := (result st)\<lparr>props := props (result st) + 1\<rparr>\<rparr> in
            case findMapping ix propKey propValue (widgetType c) of
              None \<Rightarrow>
                st1\<lparr>skippedProps := skippedProps st1 @
                      [(propKey, propValue, ''No mapping defined for this property/value/element combination'')],
                    result := (result st1)\<lparr>skipped := skipped (result st1) + 1\<rparr>\<rparr>
            | Some mapping \<Rightarrow> apply_rule c p propValue mapping st1)))"

definition analyse :: "index \<Rightarrow> row_context \<Rightarrow> property_list \<Rightarrow> analysis \<Rightarrow> analysis" where
  "analyse ix c ps st = fold (analyse_prop ix c) ps st"

text \<open>
  The row the aggregation records for an entry of \<open>spacingPropertiesToMap\<close>; its mapped
  value is \<open>`${item.spacingType}.${item.direction}=${item.mapping.mappedValue || ""}`\<close>.
\<close>

definition spacing_row :: "row_context \<Rightarrow> spacing_item \<Rightarrow> CsvDataRow" where
  "spacing_row c item =
     csv_row c (key (s_prop item)) (extractPropertyValue (s_prop item)) Mapped ''Spacing''
       (type_name (spacingType item) @ ''.'' @ direction item @ ''='' @ mappedValue (s_mapping item)) []"

text \<open>
  The block \<open>if (spacingPropertiesToMap.length > 0)\<close>: the merged state and its log, the
  new "Spacing" property appended to the list by
  \<open>createInAppearanceUnderDesignProperties\<close>, the existing one removed, the count and
  the rows of the merged properties.
\<close>

definition spacing_stage :: "row_context \<Rightarrow> (ref \<times> DesignPropertyValue) option \<Rightarrow> property_list \<Rightarrow> analysis \<Rightarrow>
    property_list \<times> analysis \<times> mapping_log list" where
  "spacing_stage c existingSpacingProp propertiesList st =
     (let items = spacingPropertiesToMap st in
      if items = [] then (propertiesList, st, [])
      else
        (let existing = map_option snd existingSpacingProp;
             newSpacingProp = (fresh_ref propertiesList, aggregate existing items);
             created = propertiesList @ [newSpacingProp];
             replaced = (case existingSpacingProp of
                           None \<Rightarrow> created
                         | Some e \<Rightarrow> remove_ref (fst e) created)
         in (replaced,
             st\<lparr>result := (result st)\<lparr>mapped := mapped (result st) + length items\<rparr>,
                csvData := csvData st @ map (spacing_row c) items\<rparr>,
             snd (merge_spacing existing items))))"

definition applyMapping :: "PropertyMappingV2 \<Rightarrow> DesignPropertyValue \<Rightarrow> DesignPropertyValue" where
  "applyMapping mapping prop =
     (if mappedProperty mapping = [] \<or> mappedValue mapping = [] then prop
      else \<lparr>key = mappedProperty mapping, dvalue = VOption (mappedValue mapping)\<rparr>)"

text \<open>The two errors \<open>applyWidgetPropertyMapping\<close> throws.\<close>

datatype error = MissingWidgetProperty | UnknownButtonStyle string

definition buttonStyleMap :: "string \<rightharpoonup> string" where
  "buttonStyleMap =
     [''Default'' \<mapsto> ''Default'', ''Inverse'' \<mapsto> ''Inverse'', ''Primary'' \<mapsto> ''Primary'',
      ''Info'' \<mapsto> ''Info'', ''Success'' \<mapsto> ''Success'', ''Warning'' \<mapsto> ''Warning'',
      ''Danger'' \<mapsto> ''Danger'']"

text \<open>
  The assignment \<open>(widget as any)[member] = v\<close> of a string: it overwrites the member of
  that name. \<open>name\<close>, \<open>structureTypeName\<close> and \<open>widgetId\<close> are the members the
  record holds as fields; assigning \<open>constructor\<close> hides the constructor by a string,
  which has no \<open>name\<close>, so \<open>widget.constructor.name\<close> is absent afterwards; any
  other member is held in \<open>widgetProps\<close>. The list \<open>propertiesList\<close> that
  \<open>processWidget\<close> works on is an object of its own, which no assignment of a member of
  the widget changes: should a rule name \<open>appearance\<close>, the string is held in
  \<open>widgetProps\<close> and the record keeps that list, as \<open>processWidget\<close> goes on
  removing from it.
\<close>

definition assign_member :: "string \<Rightarrow> string \<Rightarrow> Widget \<Rightarrow> Widget" where
  "assign_member member v widget =
     (if member = ''name'' then widget\<lparr>name := v\<rparr>
      else if member = ''structureTypeName'' then widget\<lparr>structureTypeName := v\<rparr>
      else if member = ''widgetId'' then widget\<lparr>widgetId := v\<rparr>
      else if member = ''constructor'' then widget\<lparr>constructorName := []\<rparr>
      else widget\<lparr>widgetProps := (widgetProps widget)(member \<mapsto> v)\<rparr>)"

text \<open>
  \<open>applyWidgetPropertyMapping\<close>: the button style of an action button is set through
  \<open>buttonStyleMap\<close>; every other widget property is assigned as it stands.
\<close>

definition applyWidgetPropertyMapping :: "Widget \<Rightarrow> PropertyMappingV2 \<Rightarrow> error + Widget" where
  "applyWidgetPropertyMapping widget mapping =
     (if widgetProperty mapping = [] \<or> widgetValue mapping = [] then Inl MissingWidgetProperty
      else if widgetProperty mapping = ''buttonStyle'' \<and> isActionButton widget then
        (case buttonStyleMap (widgetValue mapping) of
           Some newStyle \<Rightarrow> Inr (widget\<lparr>widgetProps := (widgetProps widget)(''buttonStyle'' \<mapsto> newStyle)\<rparr>)
         | None \<Rightarrow> Inl (UnknownButtonStyle (widgetValue mapping)))
      else Inr (assign_member (widgetProperty mapping) (widgetValue mapping) widget))"

text \<open>"Execute modifications": \<open>applyMapping\<close> on every entry of \<open>toModify\<close>.\<close>

definition execute_modifications :: "(ref \<times> PropertyMappingV2) list \<Rightarrow> property_list \<Rightarrow> property_list" where
  "execute_modifications items ps = fold (\<lambda>item. update_ref (fst item) (applyMapping (snd item))) items ps"

text \<open>\<open>allPropsToRemove\<close>: \<open>toRemove\<close>, then the merged spacing properties not yet in it.\<close>

definition allPropsToRemove :: "analysis \<Rightarrow> ref list" where
  "allPropsToRemove st =
     fold (\<lambda>item acc. if s_ref item \<in> set acc then acc else acc @ [s_ref item])
       (spacingPropertiesToMap st) (toRemove st)"

definition execute_removals :: "ref list \<Rightarrow> property_list \<Rightarrow> property_list" where
  "execute_removals rs ps = fold remove_ref rs ps"

text \<open>
  One iteration of "Execute widget property changes": when
  \<open>applyWidgetPropertyMapping\<close> throws, the \<open>catch\<close> prints a warning and the design
  property stays.
\<close>

definition set_widget_prop :: "ref \<times> PropertyMappingV2 \<Rightarrow> Widget \<Rightarrow> Widget" where
  "set_widget_prop item widget =
     (case applyWidgetPropertyMapping widget (snd item) of
        Inl e \<Rightarrow> widget
      | Inr widget' \<Rightarrow> widget'\<lparr>designProperties := remove_ref (fst item) (designProperties widget')\<rparr>)"

text \<open>\<open>propertiesList.find((p) => p.key === "Spacing")\<close>\<close>

definition existing_spacing :: "property_list \<Rightarrow> (ref \<times> DesignPropertyValue) option" where
  "existing_spacing ps = find (\<lambda>p. key (snd p) = ''Spacing'') ps"

text \<open>\<open>widgetName\<close> and \<open>widgetType\<close> as \<open>processWidget\<close> computes them.\<close>

definition widget_context :: "Widget \<Rightarrow> string \<Rightarrow> string \<Rightarrow> row_context" where
  "widget_context widget dName mName =
     \<lparr>widgetName = or_else (name widget) ''Unnamed'', widgetType = getWidgetTypeName widget,
      docName = dName, moduleName = mName\<rparr>"

text \<open>
  \<open>processWidget\<close> returns its counts; the widget as it leaves it, the audit rows and the
  lines printed by the spacing merge are returned with them.
\<close>

record widget_outcome =
  counts :: ProcessingResult
  after :: Widget
  rows :: "CsvDataRow list"
  printed :: "mapping_log list"

definition processWidget :: "index \<Rightarrow> Widget \<Rightarrow> string \<Rightarrow> string \<Rightarrow> string \<Rightarrow> CsvDataRow list \<Rightarrow> widget_outcome" where
  "processWidget ix widget dName docType mName csv =
     (if designProperties widget = [] then
        \<lparr>counts = zero_result, after = widget, rows = csv, printed = []\<rparr>
      else
        (let c = widget_context widget dName mName in
         if widgetType c \<notin> TARGET_ELEMENT_TYPES then
           \<lparr>counts = zero_result, after = widget, rows = csv, printed = []\<rparr>
         else
           (let propertiesList = designProperties widget;
                existingSpacingProp = existing_spacing propertiesList;
                st = analyse ix c propertiesList (init_analysis csv);
                staged = spacing_stage c existingSpacingProp propertiesList st;
                st' = fst (snd staged);
                modified = execute_modifications (toModify st') (fst staged);
                cleaned = execute_removals (allPropsToRemove st') modified;
                widget' = fold set_widget_prop (toSetWidgetProp st') (widget\<lparr>designProperties := cleaned\<rparr>)
            in \<lparr>counts = result st', after = widget', rows = csvData st', printed = snd (snd staged)\<rparr>)))"

section \<open>Orchestrator: processDocumentCollection and main\<close>

text \<open>
  A document as \<open>processDocumentCollection\<close> sees it: the names of its \<open>docInfo\<close>,
  whether the loaded document is a \<open>pages.Page\<close>, the lower-cased qualified name of the
  page's layout (\<open>None\<close> without \<open>layoutCall\<close> or layout), the design properties of the
  page itself, and the widgets \<open>traverse\<close> visits, in its order. Failures of the SDK
  (\<open>load\<close>, \<open>traverse\<close>, \<open>remove\<close>) are outside the model.
\<close>

record Document =
  qualifiedName :: "string option"
  documentName :: string
  isPage :: bool
  layoutName :: "string option"
  pageDesignProperties :: property_list
  docWidgets :: "Widget list"

text \<open>\<open>s.includes(sub)\<close> and \<open>s.startsWith(p)\<close>\<close>

fun includes_str :: "string \<Rightarrow> string \<Rightarrow> bool" where
  "includes_str [] sub = (sub = [])"
| "includes_str (x # xs) sub = (take (length sub) (x # xs) = sub \<or> includes_str xs sub)"

definition startsWith :: "string \<Rightarrow> string \<Rightarrow> bool" where
  "startsWith s p = (take (length p) s = p)"

text \<open>\<open>docInfo.qualifiedName || docInfo.name || 'Unknown'\<close>\<close>

definition doc_name :: "Document \<Rightarrow> string" where
  "doc_name doc =
     or_else (case qualifiedName doc of None \<Rightarrow> [] | Some q \<Rightarrow> q) (or_else (documentName doc) ''Unknown'')"

definition is_native_layout :: "Document \<Rightarrow> bool" where
  "is_native_layout doc = (case layoutName doc of None \<Rightarrow> False | Some ln \<Rightarrow> includes_str ln ''native'')"

text \<open>
  The design properties of a page are all removed: a row for each, each removed from the
  list, and their number added to the property and removed counts.
\<close>

definition page_row :: "string \<Rightarrow> string \<Rightarrow> DesignPropertyValue \<Rightarrow> CsvDataRow" where
  "page_row dName mName prop =
     \<lparr>csv_element = dName, csv_elementType = ''Page'', csv_document = dName, csv_module = mName,
      csv_property = or_else (key prop) ''Unknown'', csv_value = extractPropertyValue prop,
      csv_action = Removed, csv_mappedProperty = [], csv_mappedValue = [],
      csv_reason = ''Pages do not support design properties in Web profile''\<rparr>"

definition remove_page_props :: "string \<Rightarrow> Document \<Rightarrow> ProcessingResult \<times> CsvDataRow list \<Rightarrow>
    Document \<times> ProcessingResult \<times> CsvDataRow list" where
  "remove_page_props mName doc acc =
     (let propsToRemove = pageDesignProperties doc;
          res = fst acc
      in (doc\<lparr>pageDesignProperties := fold (\<lambda>p. remove_ref (fst p)) propsToRemove (pageDesignProperties doc)\<rparr>,
          res\<lparr>props := props res + length propsToRemove, removed := removed res + length propsToRemove\<rparr>,
          snd acc @ map (\<lambda>p. page_row (doc_name doc) mName (snd p)) propsToRemove))"

text \<open>
  The callback of \<open>traverse\<close> on a widget: \<open>processWidget\<close> changes the widget and adds
  its rows; its counts are added when it counted a property. (The callback does not add
  \<open>widgetPropsMapped\<close>.)
\<close>

definition visit_widget :: "index \<Rightarrow> string \<Rightarrow> string \<Rightarrow> string \<Rightarrow> Widget \<Rightarrow>
    Widget list \<times> ProcessingResult \<times> CsvDataRow list \<Rightarrow> Widget list \<times> ProcessingResult \<times> CsvDataRow list" where
  "visit_widget ix dName typeName mName widget acc =
     (let res = fst (snd acc);
          widgetResult = processWidget ix widget dName typeName mName (snd (snd acc))
      in (fst acc @ [after widgetResult],
          (if props (counts widgetResult) > 0
           then res\<lparr>widgets := widgets res + 1,
                    props := props res + props (counts widgetResult),
                    mapped := mapped res + mapped (counts widgetResult),
                    removed := removed res + removed (counts widgetResult),
                    skipped := skipped res + skipped (counts widgetResult)\<rparr>
           else res),
          rows widgetResult))"

text \<open>The body of the loop over the documents of a collection.\<close>

definition process_document :: "index \<Rightarrow> string \<Rightarrow> string \<Rightarrow> Document \<Rightarrow> ProcessingResult \<times> CsvDataRow list \<Rightarrow>
    Document \<times> ProcessingResult \<times> CsvDataRow list" where
  "process_document ix typeName mName doc acc =
     (if typeName = ''Page'' \<and> isPage doc \<and> is_native_layout doc then
        (doc, (fst acc)\<lparr>skippedNativeLayouts := skippedNativeLayouts (fst acc) + 1\<rparr>, snd acc)
      else
        (let cleared = (if typeName = ''Page'' \<and> isPage doc \<and> pageDesignProperties doc \<noteq> []
                        then remove_page_props mName doc acc
                        else (doc, acc));
             visited = fold (visit_widget ix (doc_name doc) typeName mName) (docWidgets (fst cleared))
                         ([], snd cleared)
         in ((fst cleared)\<lparr>docWidgets := fst visited\<rparr>, snd visited)))"

text \<open>
  \<open>processDocumentCollection\<close> on the documents of a list of the model that \<open>main\<close>
  selects (\<open>belongs\<close>: the qualified name starts with the module name). The documents are
  objects of the model, so the list of the model is returned with the selected documents
  as the function leaves them, with the result and the rows.
\<close>

fun processDocumentCollection :: "index \<Rightarrow> (Document \<Rightarrow> bool) \<Rightarrow> string \<Rightarrow> string \<Rightarrow> Document list \<Rightarrow>
    ProcessingResult \<times> CsvDataRow list \<Rightarrow> Document list \<times> ProcessingResult \<times> CsvDataRow list" where
  "processDocumentCollection ix belongs typeName mName [] acc = ([], acc)"
| "processDocumentCollection ix belongs typeName mName (doc # docs) acc =
     (if belongs doc then
        (let processed = process_document ix typeName mName doc acc;
             rest = processDocumentCollection ix belongs typeName mName docs (snd processed)
         in (fst processed # fst rest, snd rest))
      else
        (let rest = processDocumentCollection ix belongs typeName mName docs acc
         in (doc # fst rest, snd rest)))"

record Model =
  allModules :: "string list"
  allPages :: "Document list"
  allSnippets :: "Document list"
  allLayouts :: "Document list"

definition belongs_to :: "string \<Rightarrow> Document \<Rightarrow> bool" where
  "belongs_to mName doc = (case qualifiedName doc of None \<Rightarrow> False | Some q \<Rightarrow> startsWith q mName)"

text \<open>The body of the loop over the modules: pages, snippets, layouts, then the totals.\<close>

definition process_module :: "index \<Rightarrow> string \<Rightarrow> Model \<times> ProcessingResult \<times> CsvDataRow list \<Rightarrow>
    Model \<times> ProcessingResult \<times> CsvDataRow list" where
  "process_module ix mName acc =
     (if mName = ''System'' then acc
      else
        (let model = fst acc; tot = fst (snd acc); csvData = snd (snd acc);
             pagesDone = processDocumentCollection ix (belongs_to mName) ''Page'' mName (allPages model)
                           (zero_result, csvData);
             pagesResult = fst (snd pagesDone);
             snippetsDone = processDocumentCollection ix (belongs_to mName) ''Snippet'' mName (allSnippets model)
                           (zero_result, snd (snd pagesDone));
             snippetsResult = fst (snd snippetsDone);
             layoutsDone = processDocumentCollection ix (belongs_to mName) ''Layout'' mName (allLayouts model)
                           (zero_result, snd (snd snippetsDone));
             layoutsResult = fst (snd layoutsDone)
         in (model\<lparr>allPages := fst pagesDone, allSnippets := fst snippetsDone, allLayouts := fst layoutsDone\<rparr>,
             tot\<lparr>widgets := widgets tot + (widgets pagesResult + widgets snippetsResult + widgets layoutsResult),
                    props := props tot + (props pagesResult + props snippetsResult + props layoutsResult),
                    mapped := mapped tot + (mapped pagesResult + mapped snippetsResult + mapped layoutsResult),
                    removed := removed tot + (removed pagesResult + removed snippetsResult + removed layoutsResult),
                    widgetPropsMapped := widgetPropsMapped tot +
                      (widgetPropsMapped pagesResult + widgetPropsMapped snippetsResult + widgetPropsMapped layoutsResult),
                    skipped := skipped tot + (skipped pagesResult + skipped snippetsResult + skipped layoutsResult),
                    skippedNativeLayouts := skippedNativeLayouts tot + skippedNativeLayouts pagesResult\<rparr>,
             snd (snd layoutsDone))))"

text \<open>
  \<open>askConfirmation\<close> on the answer typed, trimmed and lower-cased (\<open>normalized\<close>).
\<close>

definition askConfirmation :: "string \<Rightarrow> bool" where
  "askConfirmation normalized \<longleftrightarrow> normalized = ''yes'' \<or> normalized = ''y''"

text \<open>
  How a run of \<open>main\<close> ends, and what it leaves: the model of the working copy in memory,
  the totals, the rows for the report, whether the operator was asked, whether
  \<open>model.flushChanges()\<close> was called, and the commit sent to the repository, if any, with
  the four numbers of its message (total, mapped, widget properties, removed).
\<close>

datatype ending = LoadFailed | ConfigurationMissing | Completed

record outcome =
  ending :: ending
  memory :: Model
  totals :: ProcessingResult
  report :: "CsvDataRow list"
  asked :: bool
  flushed :: bool
  committed :: "(nat \<times> nat \<times> nat \<times> nat) option"

definition untouched :: "ending \<Rightarrow> Model \<Rightarrow> outcome" where
  "untouched e model =
     \<lparr>ending = e, memory = model, totals = zero_result, report = [], asked = False, flushed = False,
      committed = None\<rparr>"

text \<open>
  \<open>main\<close>, given the mappings file (\<open>None\<close>: missing or unreadable), whether the token
  and the application id are configured, the model the working copy opens, and the
  operator's answer should the question be asked.
\<close>

definition main :: "PropertyMappingV2 list option \<Rightarrow> bool \<Rightarrow> Model \<Rightarrow> string \<Rightarrow> outcome" where
  "main file configured model answer =
     (case loadMappings file of
        None \<Rightarrow> untouched LoadFailed model
      | Some ix \<Rightarrow>
          if \<not> configured then untouched ConfigurationMissing model
          else
            (let analysed = fold (process_module ix) (allModules model) (model, zero_result, []);
                 model' = fst analysed; tot = fst (snd analysed); csvData = snd (snd analysed);
                 totalModified = mapped tot + removed tot + widgetPropsMapped tot
             in if totalModified > 0 then
                  (let shouldCommit = askConfirmation answer in
                   if \<not> shouldCommit then
                     \<lparr>ending = Completed, memory = model', totals = tot, report = csvData, asked = True,
                      flushed = False, committed = None\<rparr>
                   else
                     \<lparr>ending = Completed, memory = model', totals = tot, report = csvData, asked = True,
                      flushed = True,
                      committed = Some (totalModified, mapped tot, widgetPropsMapped tot, removed tot)\<rparr>)
                else
                  \<lparr>ending = Completed, memory = model', totals = tot, report = csvData, asked = False,
                   flushed = False, committed = None\<rparr>))"

section \<open>Classifying the properties of a widget\<close>

text \<open>
  The predicates below name, for the statements about \<open>processWidget\<close>, the cases the
  analysis loop distinguishes. \<open>rule_of\<close> is the rule the loop finds for a property:
  none when the loop passes the property over before the lookup (no key, a key without any
  rule, an empty extracted value) or when \<open>findMapping\<close> finds nothing.
\<close>

definition passed_over :: "index \<Rightarrow> DesignPropertyValue \<Rightarrow> bool" where
  "passed_over ix prop \<longleftrightarrow>
     key prop = [] \<or> key prop \<notin> MAPPED_PROPERTY_NAMES ix \<or> extractPropertyValue prop = []"

definition rule_of :: "index \<Rightarrow> row_context \<Rightarrow> DesignPropertyValue \<Rightarrow> PropertyMappingV2 option" where
  "rule_of ix c prop =
     (if passed_over ix prop then None
      else findMapping ix (key prop) (extractPropertyValue prop) (widgetType c))"

text \<open>A property the loop looks up and finds no rule for: the one it counts as skipped.\<close>

definition unmapped :: "index \<Rightarrow> row_context \<Rightarrow> DesignPropertyValue \<Rightarrow> bool" where
  "unmapped ix c prop \<longleftrightarrow>
     \<not> passed_over ix prop \<and> findMapping ix (key prop) (extractPropertyValue prop) (widgetType c) = None"

text \<open>A "map" rule that the loop hands to the spacing aggregation.\<close>

definition is_spacing_rule :: "PropertyMappingV2 \<Rightarrow> bool" where
  "is_spacing_rule m \<longleftrightarrow> action m = ActMap \<and> mappedProperty m = ''Spacing'' \<and> mappedDirection m \<noteq> []"


text \<open>The spacing contribution of a property, when its rule is a spacing rule.\<close>

definition contribution :: "index \<Rightarrow> row_context \<Rightarrow> ref \<times> DesignPropertyValue \<Rightarrow> spacing_item option" where
  "contribution ix c p =
     (case rule_of ix c (snd p) of
        None \<Rightarrow> None
      | Some m \<Rightarrow>
          if is_spacing_rule m
          then Some \<lparr>s_ref = fst p, s_prop = snd p, s_mapping = m, direction = mappedDirection m,
                     spacingType = (if mappedType m = ''padding'' then Padding else Margin)\<rparr>
          else None)"

text \<open>An item of \<open>spacingPropertiesToMap\<close> writes the slot of kind \<open>t\<close> and side \<open>d\<close>.\<close>

definition targets :: "spacing_item \<Rightarrow> spacing_type \<Rightarrow> string \<Rightarrow> bool" where
  "targets item t d \<longleftrightarrow> spacingType item = t \<and> item_dir item = d"

text \<open>The eight slots, in the order of the \<open>addInnerProp\<close> calls.\<close>

definition all_slots :: "(spacing_type \<times> string) list" where
  "all_slots = [(Margin, ''top''), (Margin, ''right''), (Margin, ''bottom''), (Margin, ''left''),
                (Padding, ''top''), (Padding, ''right''), (Padding, ''bottom''), (Padding, ''left'')]"

text \<open>
  The aggregation replaces the widget's existing "Spacing" property (the first property
  with that key) when there is a contribution.
\<close>

definition replaced_by_aggregation :: "index \<Rightarrow> row_context \<Rightarrow> property_list \<Rightarrow> ref \<times> DesignPropertyValue \<Rightarrow> bool" where
  "replaced_by_aggregation ix c ps p \<longleftrightarrow>
     existing_spacing ps = Some p \<and> List.map_filter (contribution ix c) ps \<noteq> []"

section \<open>What a run leaves in memory\<close>

text \<open>
  The widget as \<open>processWidget\<close> leaves it (which does not depend on the names and rows
  handed to it), the document as \<open>processDocumentCollection\<close> leaves it, and the model
  as the pass over a module leaves it.
\<close>

definition processed :: "index \<Rightarrow> Widget \<Rightarrow> Widget" where
  "processed ix widget = after (processWidget ix widget [] [] [] [])"

definition document_after :: "index \<Rightarrow> string \<Rightarrow> Document \<Rightarrow> Document" where
  "document_after ix typeName doc =
     (if typeName = ''Page'' \<and> isPage doc \<and> is_native_layout doc then doc
      else doc\<lparr>pageDesignProperties :=
                 (if typeName = ''Page'' \<and> isPage doc
                  then fold (\<lambda>p. remove_ref (fst p)) (pageDesignProperties doc) (pageDesignProperties doc)
                  else pageDesignProperties doc),
               docWidgets := map (processed ix) (docWidgets doc)\<rparr>)"

definition collection_after :: "index \<Rightarrow> string \<Rightarrow> string \<Rightarrow> Document list \<Rightarrow> Document list" where
  "collection_after ix typeName mName docs =
     map (\<lambda>doc. if belongs_to mName doc then document_after ix typeName doc else doc) docs"

definition module_after :: "index \<Rightarrow> string \<Rightarrow> Model \<Rightarrow> Model" where
  "module_after ix mName model =
     (if mName = ''System'' then model
      else model\<lparr>allPages := collection_after ix ''Page'' mName (allPages model),
                 allSnippets := collection_after ix ''Snippet'' mName (allSnippets model),
                 allLayouts := collection_after ix ''Layout'' mName (allLayouts model)\<rparr>)"

section \<open>Example data\<close>

text \<open>A box model with one side set.\<close>

definition ex_state :: SpacingState where
  "ex_state = \<lparr>margin = none_sides(''top'' \<mapsto> ''Small''), padding = none_sides\<rparr>"

text \<open>
  An existing "Spacing" property with the top margin set, and two contributions: a left
  padding and a top margin whose value is the one already there.
\<close>

definition ex_spacing_prop :: DesignPropertyValue where
  "ex_spacing_prop = \<lparr>key = ''Spacing'', dvalue = VCompound [(''margin-top'', VOption ''Small'')]\<rparr>"

definition ex_rule_padding_left :: PropertyMappingV2 where
  "ex_rule_padding_left =
     \<lparr>property = ''Padding left'', pvalue = ''Large'', elementTypes = [''*''], action = ActMap,
      mappedProperty = ''Spacing'', mappedValue = ''L'', mappedDirection = ''left'', mappedType = ''padding'',
      widgetProperty = [], widgetValue = [], reason = []\<rparr>"

definition ex_item_padding_left :: spacing_item where
  "ex_item_padding_left =
     \<lparr>s_ref = 11, s_prop = \<lparr>key = ''Padding left'', dvalue = VOption ''Large''\<rparr>,
      s_mapping = ex_rule_padding_left, direction = ''left'', spacingType = Padding\<rparr>"

definition ex_rule_margin_top :: PropertyMappingV2 where
  "ex_rule_margin_top =
     \<lparr>property = ''Margin top'', pvalue = ''Small'', elementTypes = [''*''], action = ActMap,
      mappedProperty = ''Spacing'', mappedValue = ''Small'', mappedDirection = ''top'', mappedType = ''margin'',
      widgetProperty = [], widgetValue = [], reason = []\<rparr>"

definition ex_item_margin_top :: spacing_item where
  "ex_item_margin_top =
     \<lparr>s_ref = 2, s_prop = \<lparr>key = ''Margin top'', dvalue = VOption ''Small''\<rparr>,
      s_mapping = ex_rule_margin_top, direction = ''top'', spacingType = Margin\<rparr>"

text \<open>Two rules of the mappings file with the same property, value and element type.\<close>

definition ex_rule_first :: PropertyMappingV2 where
  "ex_rule_first =
     \<lparr>property = ''Justify content'', pvalue = ''Center'', elementTypes = [''DivContainer'', ''ListView''],
      action = ActMap, mappedProperty = ''Align content'', mappedValue = ''Center'',
      mappedDirection = [], mappedType = [], widgetProperty = [], widgetValue = [], reason = []\<rparr>"

definition ex_rule_second :: PropertyMappingV2 where
  "ex_rule_second =
     \<lparr>property = ''Justify content'', pvalue = ''Center'', elementTypes = [''DivContainer''],
      action = ActRemove, mappedProperty = [], mappedValue = [],
      mappedDirection = [], mappedType = [], widgetProperty = [], widgetValue = [], reason = ''Not needed''\<rparr>"

text \<open>
  A container with two properties whose rules target "Align content", a spacing property,
  a value without rule and a property without value; the index of four rules.
\<close>

definition ex_rule_horizontal :: PropertyMappingV2 where
  "ex_rule_horizontal =
     \<lparr>property = ''Render children horizontal'', pvalue = ''true'', elementTypes = [''*''],
      action = ActMap, mappedProperty = ''Align content'', mappedValue = ''Row'',
      mappedDirection = [], mappedType = [], widgetProperty = [], widgetValue = [], reason = []\<rparr>"

definition ex_index :: index where
  "ex_index = build_index [ex_rule_first, ex_rule_horizontal, ex_rule_margin_top, ex_rule_padding_left]"

definition ex_props :: property_list where
  "ex_props =
     [(0, \<lparr>key = ''Justify content'', dvalue = VOption ''Center''\<rparr>),
      (1, \<lparr>key = ''Render children horizontal'', dvalue = VToggle\<rparr>),
      (2, \<lparr>key = ''Margin top'', dvalue = VOption ''Small''\<rparr>),
      (3, \<lparr>key = ''Justify content'', dvalue = VOption ''Stretch''\<rparr>),
      (4, \<lparr>key = ''Padding left'', dvalue = VNull\<rparr>)]"

definition ex_widget :: Widget where
  "ex_widget =
     \<lparr>name = ''container1'', structureTypeName = ''Pages$DivContainer'', widgetId = [],
      constructorName = ''DivContainer'', isActionButton = False, designProperties = ex_props,
      widgetProps = Map.empty\<rparr>"

definition ex_context :: row_context where
  "ex_context = widget_context ex_widget ''Shop.Home'' ''Shop''"

text \<open>
  A container with an existing compound "Spacing" property and a spacing property, one
  with a "Spacing" property without value and a spacing property, and one with a property
  whose name has no rule and a property whose value has no rule.
\<close>

definition ex_aggregate_widget :: Widget where
  "ex_aggregate_widget =
     \<lparr>name = ''container5'', structureTypeName = ''Pages$DivContainer'', widgetId = [],
      constructorName = ''DivContainer'', isActionButton = False,
      designProperties =
        [(10, ex_spacing_prop), (11, \<lparr>key = ''Padding left'', dvalue = VOption ''Large''\<rparr>)],
      widgetProps = Map.empty\<rparr>"

definition ex_spacing_widget :: Widget where
  "ex_spacing_widget =
     \<lparr>name = ''container2'', structureTypeName = ''Pages$DivContainer'', widgetId = [],
      constructorName = ''DivContainer'', isActionButton = False,
      designProperties =
        [(10, \<lparr>key = ''Spacing'', dvalue = VNull\<rparr>),
         (11, \<lparr>key = ''Margin top'', dvalue = VOption ''Small''\<rparr>)],
      widgetProps = Map.empty\<rparr>"

definition ex_plain_widget :: Widget where
  "ex_plain_widget =
     \<lparr>name = ''container3'', structureTypeName = ''Pages$DivContainer'', widgetId = [],
      constructorName = ''DivContainer'', isActionButton = False,
      designProperties =
        [(10, \<lparr>key = ''Opacity'', dvalue = VOption ''Half''\<rparr>),
         (11, \<lparr>key = ''Justify content'', dvalue = VOption ''Stretch''\<rparr>)],
      widgetProps = Map.empty\<rparr>"

text \<open>
  A model with one page in the module "Shop", holding a container with one design
  property, and the mappings file of the four rules.
\<close>

definition ex_single_widget :: Widget where
  "ex_single_widget =
     \<lparr>name = ''container4'', structureTypeName = ''Pages$DivContainer'', widgetId = [],
      constructorName = ''DivContainer'', isActionButton = False,
      designProperties = [(10, \<lparr>key = ''Justify content'', dvalue = VOption ''Center''\<rparr>)],
      widgetProps = Map.empty\<rparr>"

definition ex_page :: Document where
  "ex_page =
     \<lparr>qualifiedName = Some ''Shop.Home'', documentName = ''Home'', isPage = True,
      layoutName = Some ''atlas_core.atlas_default'', pageDesignProperties = [],
      docWidgets = [ex_single_widget]\<rparr>"

definition ex_model :: Model where
  "ex_model = \<lparr>allModules = [''System'', ''Shop''], allPages = [ex_page], allSnippets = [], allLayouts = []\<rparr>"

definition ex_file :: "PropertyMappingV2 list" where
  "ex_file = [ex_rule_first, ex_rule_horizontal, ex_rule_margin_top, ex_rule_padding_left]"







section \<open>Rule resolution\<close>

lemma lookup_set_keys:
  "set_keys m L k =
     (if k \<in> (\<lambda>t. lookup_key (property m) (pvalue m) t) ` set (elementTypes m) then Some m else L k)"
proof -
  have "fold (\<lambda>t L'. L'(lookup_key p v t \<mapsto> m)) ts L k =
          (if k \<in> (\<lambda>t. lookup_key p v t) ` set ts then Some m else L k)" for p v ts
    by (induction ts arbitrary: L) auto
  then show ?thesis by (simp add: set_keys_def)
qed

lemma lookup_add_mapping:
  "MAPPINGS_LOOKUP (add_mapping m ix) k = (if produces_key m k then Some m else MAPPINGS_LOOKUP ix k)"
  by (simp add: add_mapping_def lookup_set_keys produces_key_def)

lemma lookup_fold_unproduced:
  "\<forall>m \<in> set ms. \<not> produces_key m k \<Longrightarrow>
     MAPPINGS_LOOKUP (fold add_mapping ms ix) k = MAPPINGS_LOOKUP ix k"
  by (induction ms arbitrary: ix) (simp_all add: lookup_add_mapping)

lemma lookup_fold_last:
  "produces_key b k \<Longrightarrow> \<forall>m \<in> set zs. \<not> produces_key m k \<Longrightarrow>
     MAPPINGS_LOOKUP (fold add_mapping (ys @ b # zs) ix) k = Some b"
  by (simp add: lookup_fold_unproduced lookup_add_mapping)





text \<open>
  C10. When two non-comment entries \<open>a\<close> (earlier) and \<open>b\<close> (later) of the mappings
  file produce the same lookup key and no non-comment entry after \<open>b\<close> produces it, the
  index holds \<open>b\<close> under that key, and resolving a (property, value, elementType) whose
  exact key it is returns \<open>b\<close>.
\<close>

theorem loadMappings_last_entry_wins:
  assumes "not_comment a" and "not_comment b"
    and "produces_key a k" and "produces_key b k"
    and "\<forall>m \<in> set zs. not_comment m \<longrightarrow> \<not> produces_key m k"
  shows "\<exists>ix. loadMappings (Some (xs @ a # ys @ b # zs)) = Some ix \<and>
           MAPPINGS_LOOKUP ix k = Some b \<and>
           (\<forall>p v t. k = lookup_key p v t \<longrightarrow> findMapping ix p v t = Some b)"
proof -
  let ?ms = "xs @ a # ys @ b # zs"
  have split: "filter not_comment ?ms =
      (filter not_comment xs @ a # filter not_comment ys) @ b # filter not_comment zs"
    using assms(1,2) by simp
  have "\<forall>m \<in> set (filter not_comment zs). \<not> produces_key m k"
    using assms(5) by simp
  then have look: "MAPPINGS_LOOKUP (build_index ?ms) k = Some b"
    unfolding build_index_def split using assms(4) by (rule lookup_fold_last[rotated])
  then have "\<forall>p v t. k = lookup_key p v t \<longrightarrow> findMapping (build_index ?ms) p v t = Some b"
    using look by (auto simp: findMapping_def)
  with look show ?thesis by (simp add: loadMappings_def)
qed


theorem loadMappings_last_entry_wins_witness:
  "loadMappings (Some [ex_rule_first, ex_rule_second]) = Some (build_index [ex_rule_first, ex_rule_second]) \<and>
   findMapping (build_index [ex_rule_first, ex_rule_second]) ''Justify content'' ''Center'' ''DivContainer''
     = Some ex_rule_second"
proof -
  let ?k = "lookup_key ''Justify content'' ''Center'' ''DivContainer''"
  have a: "not_comment ex_rule_first" and b: "not_comment ex_rule_second"
    by (simp_all add: not_comment_def ex_rule_first_def ex_rule_second_def)
  have ka: "produces_key ex_rule_first ?k" and kb: "produces_key ex_rule_second ?k"
    by (simp_all add: produces_key_def ex_rule_first_def ex_rule_second_def)
  have none: "\<forall>m \<in> set []. not_comment m \<longrightarrow> \<not> produces_key m ?k" by simp
  from loadMappings_last_entry_wins[OF a b ka kb none, of "[]" "[]"]
  obtain ix where ix: "loadMappings (Some [ex_rule_first, ex_rule_second]) = Some ix"
    and res: "\<forall>p v t. ?k = lookup_key p v t \<longrightarrow> findMapping ix p v t = Some ex_rule_second"
    by auto
  from ix have "ix = build_index [ex_rule_first, ex_rule_second]" by (simp add: loadMappings_def)
  with ix res show ?thesis by blast
qed

section \<open>Spacing aggregation: lemmas\<close>


lemma fst_fold_apply_item: "fst (fold apply_item items acc) = fold overwrite items (fst acc)"
  by (induction items arbitrary: acc) (simp_all add: apply_item_def)

lemma layer_overwrite:
  "layer t (overwrite item st) d =
     (if spacingType item = t \<and> item_dir item = d then Some (item_val item) else layer t st d)"
  by (cases t; cases "spacingType item") (auto simp: overwrite_def layer_def set_layer_def)

lemma layer_fold_untargeted:
  "\<forall>i \<in> set items. \<not> targets i t d \<Longrightarrow> layer t (fold overwrite items st) d = layer t st d"
  by (induction items arbitrary: st) (auto simp: layer_overwrite targets_def)

lemma layer_fold_last:
  "\<forall>i \<in> set ys. \<not> targets i (spacingType item) (item_dir item) \<Longrightarrow>
     layer (spacingType item) (fold overwrite (xs @ item # ys) st) (item_dir item) = Some (item_val item)"
  by (simp add: layer_fold_untargeted layer_overwrite)

lemma snd_fold_apply_item_snoc:
  "snd (fold apply_item (xs @ [i]) acc) =
     snd (fold apply_item xs acc) @ [mapping_line i (fold overwrite xs (fst acc))]"
  by (simp add: apply_item_def fst_fold_apply_item)

lemma length_logs: "length (snd (fold apply_item items acc)) = length (snd acc) + length items"
  by (induction items arbitrary: acc) (simp_all add: apply_item_def)

lemma logs_nth:
  "length (snd (fold apply_item items (st, []))) = length items \<and>
   (\<forall>n < length items.
      snd (fold apply_item items (st, [])) ! n = mapping_line (items ! n) (fold overwrite (take n items) st))"
proof (induction items rule: rev_induct)
  case Nil
  then show ?case by simp
next
  case (snoc x xs)
  let ?prev = "snd (fold apply_item xs (st, []))"
  have step: "snd (fold apply_item (xs @ [x]) (st, [])) = ?prev @ [mapping_line x (fold overwrite xs st)]"
    using snd_fold_apply_item_snoc[of xs x "(st, [])"] by simp
  have len: "length ?prev = length xs" using snoc.IH by simp
  show ?case
  proof (intro conjI allI impI)
    show "length (snd (fold apply_item (xs @ [x]) (st, []))) = length (xs @ [x])"
      using step len by simp
  next
    fix n assume n: "n < length (xs @ [x])"
    show "snd (fold apply_item (xs @ [x]) (st, [])) ! n =
            mapping_line ((xs @ [x]) ! n) (fold overwrite (take n (xs @ [x])) st)"
    proof (cases "n < length xs")
      case True
      then show ?thesis using snoc.IH step len by (simp add: nth_append)
    next
      case False
      with n have "n = length xs" by simp
      then show ?thesis using step len by (simp add: nth_append)
    qed
  qed
qed


lemma split_on_not_Nil: "split_on c k \<noteq> []"
  by (induction k) (auto split: list.splits)

lemma split_on_single: "split_on c k = [b] \<Longrightarrow> k = b"
  by (induction k arbitrary: b) (auto split: if_splits list.splits simp: split_on_not_Nil)

lemma split_on_pair: "split_on c k = [a, b] \<Longrightarrow> k = a @ c # b"
  by (induction k arbitrary: a) (auto split: if_splits list.splits dest: split_on_single)

lemma split_slot_key: "is_side d \<Longrightarrow> split_on CHR ''-'' (slot_key t d) = [type_name t, d]"
  by (cases t) (auto simp: is_side_def slot_key_def type_name_def)

lemma slot_key_inject: "slot_key t d = slot_key t' d' \<longleftrightarrow> t = t' \<and> d = d'"
  by (cases t; cases t') (auto simp: slot_key_def type_name_def)

lemma parse_entry_cases:
  "parse_entry e st = st \<or>
   (\<exists>t d v. is_side d \<and> e = (slot_key t d, VOption v) \<and> v \<noteq> [] \<and>
      parse_entry e st = set_layer t ((layer t st)(d \<mapsto> v)) st)"
proof (cases "parse_entry e st = st")
  case True
  then show ?thesis by simp
next
  case False
  obtain k pv where e: "e = (k, pv)" by (cases e)
  from False e obtain v where pv: "pv = VOption v" and v: "v \<noteq> []" and k: "k \<noteq> []"
    by (cases pv) (auto simp: parse_entry_def split: if_splits)
  from False e pv v k obtain ty dir where sp: "split_on CHR ''-'' k = [ty, dir]"
    and ok: "(ty = ''margin'' \<or> ty = ''padding'') \<and> is_side dir"
    by (auto simp: parse_entry_def split: if_splits list.splits)
  from sp have kk: "k = ty @ CHR ''-'' # dir" by (rule split_on_pair)
  show ?thesis
  proof (cases "ty = ''margin''")
    case True
    then have "k = slot_key Margin dir" using kk by (simp add: slot_key_def type_name_def)
    moreover have "parse_entry e st = set_layer Margin ((layer Margin st)(dir \<mapsto> v)) st"
      using e pv v k sp ok True by (simp add: parse_entry_def set_layer_def layer_def)
    ultimately show ?thesis using e pv v ok by blast
  next
    case False
    with ok have ty: "ty = ''padding''" by simp
    then have "k = slot_key Padding dir" using kk by (simp add: slot_key_def type_name_def)
    moreover have "parse_entry e st = set_layer Padding ((layer Padding st)(dir \<mapsto> v)) st"
      using e pv v k sp ok ty by (simp add: parse_entry_def set_layer_def layer_def)
    ultimately show ?thesis using e pv v ok by blast
  qed
qed

lemma layer_set_layer:
  "layer t (set_layer t' m st) d = (if t = t' then m d else layer t st d)"
  by (cases t; cases t') (simp_all add: layer_def set_layer_def)

lemma parse_entry_malformed:
  assumes "\<forall>t d. is_side d \<longrightarrow> fst e \<noteq> slot_key t d"
  shows "parse_entry e st = st"
proof (rule ccontr)
  assume "parse_entry e st \<noteq> st"
  with parse_entry_cases[of e st] obtain t d v where "is_side d" "e = (slot_key t d, VOption v)"
    by blast
  with assms show False by auto
qed

lemma parse_entry_slot:
  assumes "is_side d" and "v \<noteq> []"
  shows "parse_entry (slot_key t d, VOption v) st = set_layer t ((layer t st)(d \<mapsto> v)) st"
proof -
  have sp: "split_on CHR ''-'' (slot_key t d) = [type_name t, d]"
    using assms(1) by (rule split_slot_key)
  have ne: "slot_key t d \<noteq> []" by (simp add: slot_key_def)
  have "parse_entry (slot_key t d, VOption v) st =
          (if type_name t = ''margin'' then st\<lparr>margin := (margin st)(d \<mapsto> v)\<rparr>
           else st\<lparr>padding := (padding st)(d \<mapsto> v)\<rparr>)"
    using assms sp ne by (cases t) (simp_all add: parse_entry_def type_name_def)
  then show ?thesis by (cases t) (simp_all add: type_name_def set_layer_def layer_def)
qed

lemma layer_parse_entry_other:
  "fst e \<noteq> slot_key t d \<Longrightarrow> layer t (parse_entry e st) d = layer t st d"
  using parse_entry_cases[of e st] by (auto simp: layer_set_layer slot_key_inject)

lemma layer_parse_entry_keeps:
  "layer t st d \<noteq> None \<Longrightarrow> layer t (parse_entry e st) d \<noteq> None"
  using parse_entry_cases[of e st] by (auto simp: layer_set_layer)

lemma layer_fold_parse_other:
  "\<forall>e \<in> set es. fst e \<noteq> slot_key t d \<Longrightarrow> layer t (fold parse_entry es st) d = layer t st d"
  by (induction es arbitrary: st) (simp_all add: layer_parse_entry_other)

lemma layer_fold_parse_keeps:
  "layer t st d \<noteq> None \<Longrightarrow> layer t (fold parse_entry es st) d \<noteq> None"
proof (induction es arbitrary: st)
  case Nil
  then show ?case by simp
next
  case (Cons e es)
  from Cons.prems have "layer t (parse_entry e st) d \<noteq> None" by (rule layer_parse_entry_keeps)
  then have "layer t (fold parse_entry es (parse_entry e st)) d \<noteq> None" by (rule Cons.IH)
  then show ?case by simp
qed

lemma layer_none_state: "layer t none_state d = (if is_side d then Some ''None'' else None)"
  by (cases t) (auto simp: layer_def none_state_def none_sides_def is_side_def)

lemma layer_fold_parse_last:
  assumes "is_side d" and "v \<noteq> []" and "\<forall>e \<in> set es2. fst e \<noteq> slot_key t d"
  shows "layer t (fold parse_entry (es1 @ (slot_key t d, VOption v) # es2) st) d = Some v"
  using assms by (simp add: layer_fold_parse_other parse_entry_slot layer_set_layer)

lemma layer_seed_state:
  assumes "parseSpacingState (Some p) = Some parsed" and "is_side d"
  shows "layer t (seed_state (Some p)) d = layer t parsed d"
proof -
  from assms(1) obtain es where es: "dvalue p = VCompound es" and parsed: "parsed = fold parse_entry es none_state"
    by (auto simp: parseSpacingState_def split: dvalue.splits)
  have "layer t parsed d \<noteq> None"
    unfolding parsed using assms(2) by (intro layer_fold_parse_keeps) (simp add: layer_none_state)
  then show ?thesis
    using assms(1) by (cases t) (auto simp: seed_state_def layer_def map_add_def split: option.splits)
qed

lemma filter_materialize:
  "is_side d \<Longrightarrow>
     filter (\<lambda>e. fst e = slot_key t d) (materialize st) = addInnerProp (slot_key t d) (side_val (layer t st) d)"
  by (cases t) (auto simp: is_side_def materialize_def addInnerProp_def slot_key_def type_name_def layer_def)


lemma materialize_slots:
  "materialize st = concat (map (\<lambda>s. addInnerProp (slot_key (fst s) (snd s)) (side_val (layer (fst s) st) (snd s))) all_slots)"
  by (simp add: materialize_def all_slots_def slot_key_def type_name_def layer_def)

lemma all_slots_sides: "s \<in> set all_slots \<Longrightarrow> is_side (snd s)"
  by (auto simp: all_slots_def is_side_def)

text \<open>
  C5. The compound value written for an aggregated state has an entry exactly for the
  slots whose value is not "None": every entry is a slot with a value other than "None",
  every such slot has its entry, a state whose eight slots are all "None" gives the empty
  compound, and this is the value of the "Spacing" property the aggregation creates.
\<close>

theorem materialize_omits_None:
  "(\<forall>e \<in> set (materialize st). \<exists>t d. is_side d \<and> side_val (layer t st) d \<noteq> ''None'' \<and>
        e = (slot_key t d, VOption (side_val (layer t st) d))) \<and>
   (\<forall>t d. is_side d \<longrightarrow>
        ((slot_key t d, VOption (side_val (layer t st) d)) \<in> set (materialize st)
           \<longleftrightarrow> side_val (layer t st) d \<noteq> ''None'')) \<and>
   ((\<forall>t d. is_side d \<longrightarrow> side_val (layer t st) d = ''None'') \<longrightarrow> materialize st = []) \<and>
   dvalue (aggregate ex items) = VCompound (materialize (fst (merge_spacing ex items)))"
proof (intro conjI ballI allI impI)
  fix e assume "e \<in> set (materialize st)"
  then obtain s where s: "s \<in> set all_slots"
    and e: "e \<in> set (addInnerProp (slot_key (fst s) (snd s)) (side_val (layer (fst s) st) (snd s)))"
    by (auto simp: materialize_slots)
  from e have "side_val (layer (fst s) st) (snd s) \<noteq> ''None''"
    and "e = (slot_key (fst s) (snd s), VOption (side_val (layer (fst s) st) (snd s)))"
    by (auto simp: addInnerProp_def split: if_splits)
  with all_slots_sides[OF s]
  show "\<exists>t d. is_side d \<and> side_val (layer t st) d \<noteq> ''None'' \<and>
          e = (slot_key t d, VOption (side_val (layer t st) d))" by blast
next
  fix t d assume d: "is_side d"
  let ?e = "(slot_key t d, VOption (side_val (layer t st) d))"
  have "?e \<in> set (materialize st) \<longleftrightarrow> ?e \<in> set (filter (\<lambda>e. fst e = slot_key t d) (materialize st))"
    by simp
  also have "\<dots> \<longleftrightarrow> side_val (layer t st) d \<noteq> ''None''"
    by (simp add: filter_materialize[OF d] addInnerProp_def)
  finally show "?e \<in> set (materialize st) \<longleftrightarrow> side_val (layer t st) d \<noteq> ''None''" .
next
  assume none: "\<forall>t d. is_side d \<longrightarrow> side_val (layer t st) d = ''None''"
  have "addInnerProp (slot_key (fst s) (snd s)) (side_val (layer (fst s) st) (snd s)) = []"
    if "s \<in> set all_slots" for s
    using none all_slots_sides[OF that] by (simp add: addInnerProp_def)
  then show "materialize st = []" by (simp add: materialize_slots)
next
  show "dvalue (aggregate ex items) = VCompound (materialize (fst (merge_spacing ex items)))"
    by (simp add: aggregate_def)
qed

theorem materialize_omits_None_witness:
  "materialize none_state = [] \<and>
   (slot_key Margin ''top'', VOption ''Small'') \<in> set (materialize ex_state)"
proof -
  have "materialize none_state = []"
    by (rule materialize_omits_None[THEN conjunct2, THEN conjunct2, THEN conjunct1, rule_format])
       (simp add: layer_none_state side_val_def show_undefined_def)
  moreover have "(slot_key Margin ''top'', VOption ''Small'') \<in> set (materialize ex_state)"
    using materialize_omits_None[of ex_state, THEN conjunct2, THEN conjunct1, rule_format, of "''top''" Margin]
    by (simp add: is_side_def ex_state_def layer_def side_val_def show_undefined_def none_sides_def)
  ultimately show ?thesis by simp
qed




lemma fst_merge_spacing: "fst (merge_spacing ex items) = fold overwrite items (seed_state ex)"
  by (simp add: merge_spacing_def fst_fold_apply_item)

section \<open>The analysis loop: lemmas\<close>

lemma analyse_Nil [simp]: "analyse ix c [] st = st"
  by (simp add: analyse_def)

lemma analyse_Cons [simp]: "analyse ix c (p # ps) st = analyse ix c ps (analyse_prop ix c p st)"
  by (simp add: analyse_def)

lemma analyse_append: "analyse ix c (xs @ ys) st = analyse ix c ys (analyse ix c xs st)"
  by (simp add: analyse_def)

lemma analyse_prop_passed_over: "passed_over ix (snd p) \<Longrightarrow> analyse_prop ix c p st = st"
  by (auto simp: analyse_prop_def passed_over_def Let_def)

lemma analyse_prop_unmapped:
  "unmapped ix c (snd p) \<Longrightarrow>
     analyse_prop ix c p st =
       st\<lparr>result := (result st)\<lparr>props := props (result st) + 1, skipped := skipped (result st) + 1\<rparr>,
          skippedProps := skippedProps st @
            [(key (snd p), extractPropertyValue (snd p),
              ''No mapping defined for this property/value/element combination'')]\<rparr>"
  by (auto simp: analyse_prop_def unmapped_def passed_over_def Let_def)

lemma analyse_prop_rule:
  "rule_of ix c (snd p) = Some m \<Longrightarrow>
     analyse_prop ix c p st =
       apply_rule c p (extractPropertyValue (snd p)) m
         (st\<lparr>result := (result st)\<lparr>props := props (result st) + 1\<rparr>\<rparr>)"
  by (auto simp: analyse_prop_def rule_of_def passed_over_def Let_def split: if_splits)

lemma prop_cases:
  obtains (passed) "passed_over ix prop" "rule_of ix c prop = None"
  | (unmapped) "unmapped ix c prop" "rule_of ix c prop = None"
  | (rule) m where "rule_of ix c prop = Some m"
  by (cases "rule_of ix c prop") (auto simp: rule_of_def unmapped_def split: if_splits)

lemma analyse_prop_contribution:
  "contribution ix c p = Some i \<Longrightarrow>
     analyse_prop ix c p st =
       st\<lparr>result := (result st)\<lparr>props := props (result st) + 1\<rparr>,
          spacingPropertiesToMap := spacingPropertiesToMap st @ [i]\<rparr>"
  by (auto simp: contribution_def is_spacing_rule_def analyse_prop_rule apply_rule_def
      split: option.splits if_splits)

lemma spacing_queue_step:
  "spacingPropertiesToMap (analyse_prop ix c p st) =
     spacingPropertiesToMap st @ (case contribution ix c p of None \<Rightarrow> [] | Some i \<Rightarrow> [i])"
proof (cases rule: prop_cases[of ix "snd p" c])
  case passed
  then show ?thesis by (simp add: analyse_prop_passed_over contribution_def)
next
  case unmapped
  then show ?thesis by (simp add: analyse_prop_unmapped contribution_def)
next
  case (rule m)
  then show ?thesis
    by (cases "action m") (auto simp: analyse_prop_rule apply_rule_def contribution_def is_spacing_rule_def Let_def)
qed

lemma spacing_queue:
  "spacingPropertiesToMap (analyse ix c ps st) =
     spacingPropertiesToMap st @ List.map_filter (contribution ix c) ps"
  by (induction ps arbitrary: st) (auto simp: spacing_queue_step List.map_filter_simps split: option.splits)


subsection \<open>What an iteration adds to the queues\<close>

lemma toRemove_step:
  "toRemove (analyse_prop ix c p st) = toRemove st \<or>
   toRemove (analyse_prop ix c p st) = toRemove st @ [fst p]"
proof (cases rule: prop_cases[of ix "snd p" c])
  case (rule m)
  then show ?thesis
    by (cases "action m") (auto simp: analyse_prop_rule apply_rule_def Let_def)
qed (simp_all add: analyse_prop_passed_over analyse_prop_unmapped)

lemma toModify_step:
  "toModify (analyse_prop ix c p st) = toModify st \<or>
   (\<exists>m. rule_of ix c (snd p) = Some m \<and> toModify (analyse_prop ix c p st) = toModify st @ [(fst p, m)])"
proof (cases rule: prop_cases[of ix "snd p" c])
  case (rule m)
  then show ?thesis
    by (cases "action m") (auto simp: analyse_prop_rule apply_rule_def Let_def)
qed (simp_all add: analyse_prop_passed_over analyse_prop_unmapped)

lemma toSetWidgetProp_step:
  "toSetWidgetProp (analyse_prop ix c p st) = toSetWidgetProp st \<or>
   (\<exists>m. toSetWidgetProp (analyse_prop ix c p st) = toSetWidgetProp st @ [(fst p, m)])"
proof (cases rule: prop_cases[of ix "snd p" c])
  case (rule m)
  then show ?thesis
    by (cases "action m") (auto simp: analyse_prop_rule apply_rule_def Let_def)
qed (simp_all add: analyse_prop_passed_over analyse_prop_unmapped)



text \<open>Over the whole loop: the queues and the rows only grow, by entries of the properties visited.\<close>

lemma toRemove_analyse:
  "\<exists>new. toRemove (analyse ix c ps st) = toRemove st @ new \<and> set new \<subseteq> fst ` set ps"
proof (induction ps arbitrary: st)
  case Nil
  then show ?case by simp
next
  case (Cons p ps)
  from Cons.IH[of "analyse_prop ix c p st"] obtain new
    where new: "toRemove (analyse ix c ps (analyse_prop ix c p st)) = toRemove (analyse_prop ix c p st) @ new"
      and sub: "set new \<subseteq> fst ` set ps" by blast
  from toRemove_step[of ix c p st] show ?case
  proof
    assume "toRemove (analyse_prop ix c p st) = toRemove st"
    with new sub show ?thesis by auto
  next
    assume "toRemove (analyse_prop ix c p st) = toRemove st @ [fst p]"
    with new have "toRemove (analyse ix c (p # ps) st) = toRemove st @ (fst p # new)" by simp
    moreover have "set (fst p # new) \<subseteq> fst ` set (p # ps)" using sub by auto
    ultimately show ?thesis by blast
  qed
qed

lemma toModify_analyse:
  "\<exists>new. toModify (analyse ix c ps st) = toModify st @ new \<and> fst ` set new \<subseteq> fst ` set ps"
proof (induction ps arbitrary: st)
  case Nil
  then show ?case by simp
next
  case (Cons p ps)
  from Cons.IH[of "analyse_prop ix c p st"] obtain new
    where new: "toModify (analyse ix c ps (analyse_prop ix c p st)) = toModify (analyse_prop ix c p st) @ new"
      and sub: "fst ` set new \<subseteq> fst ` set ps" by blast
  from toModify_step[of ix c p st] show ?case
  proof (elim disjE exE conjE)
    assume "toModify (analyse_prop ix c p st) = toModify st"
    with new sub show ?thesis by auto
  next
    fix m assume "toModify (analyse_prop ix c p st) = toModify st @ [(fst p, m)]"
    with new have "toModify (analyse ix c (p # ps) st) = toModify st @ ((fst p, m) # new)" by simp
    moreover have "fst ` set ((fst p, m) # new) \<subseteq> fst ` set (p # ps)" using sub by auto
    ultimately show ?thesis by blast
  qed
qed

lemma toSetWidgetProp_analyse:
  "\<exists>new. toSetWidgetProp (analyse ix c ps st) = toSetWidgetProp st @ new \<and> fst ` set new \<subseteq> fst ` set ps"
proof (induction ps arbitrary: st)
  case Nil
  then show ?case by simp
next
  case (Cons p ps)
  from Cons.IH[of "analyse_prop ix c p st"] obtain new
    where new: "toSetWidgetProp (analyse ix c ps (analyse_prop ix c p st)) = toSetWidgetProp (analyse_prop ix c p st) @ new"
      and sub: "fst ` set new \<subseteq> fst ` set ps" by blast
  from toSetWidgetProp_step[of ix c p st] show ?case
  proof (elim disjE exE)
    assume "toSetWidgetProp (analyse_prop ix c p st) = toSetWidgetProp st"
    with new sub show ?thesis by auto
  next
    fix m assume "toSetWidgetProp (analyse_prop ix c p st) = toSetWidgetProp st @ [(fst p, m)]"
    with new have "toSetWidgetProp (analyse ix c (p # ps) st) = toSetWidgetProp st @ ((fst p, m) # new)" by simp
    moreover have "fst ` set ((fst p, m) # new) \<subseteq> fst ` set (p # ps)" using sub by auto
    ultimately show ?thesis by blast
  qed
qed




subsection \<open>Counts\<close>

lemma counts_step:
  "removed (result (analyse_prop ix c p st)) + length (toRemove st) =
     removed (result st) + length (toRemove (analyse_prop ix c p st)) \<and>
   mapped (result (analyse_prop ix c p st)) + length (toModify st) =
     mapped (result st) + length (toModify (analyse_prop ix c p st)) \<and>
   skipped (result (analyse_prop ix c p st)) =
     skipped (result st) + (if unmapped ix c (snd p) then 1 else 0)"
proof (cases rule: prop_cases[of ix "snd p" c])
  case passed
  then show ?thesis by (simp add: analyse_prop_passed_over unmapped_def)
next
  case unmapped
  then show ?thesis by (simp add: analyse_prop_unmapped)
next
  case (rule m)
  then have "\<not> unmapped ix c (snd p)" by (auto simp: unmapped_def rule_of_def split: if_splits)
  with rule show ?thesis
    by (cases "action m") (auto simp: analyse_prop_rule apply_rule_def Let_def)
qed

lemma counts_analyse:
  "removed (result (analyse ix c ps st)) + length (toRemove st) =
     removed (result st) + length (toRemove (analyse ix c ps st)) \<and>
   mapped (result (analyse ix c ps st)) + length (toModify st) =
     mapped (result st) + length (toModify (analyse ix c ps st)) \<and>
   skipped (result (analyse ix c ps st)) =
     skipped (result st) + length (filter (\<lambda>p. unmapped ix c (snd p)) ps)"
proof (induction ps arbitrary: st)
  case Nil
  then show ?case by simp
next
  case (Cons p ps)
  from counts_step[of ix c p st] Cons.IH[of "analyse_prop ix c p st"] show ?case by auto
qed

subsection \<open>Claiming a target\<close>







subsection \<open>Whether a property is queued is decided by its own iteration\<close>

lemma toRemove_own:
  assumes "distinct (map fst (xs @ q # ys))" and "set (toRemove st) \<inter> fst ` set (xs @ q # ys) = {}"
  shows "fst q \<in> set (toRemove (analyse ix c (xs @ q # ys) st)) \<longleftrightarrow>
         toRemove (analyse_prop ix c q (analyse ix c xs st)) = toRemove (analyse ix c xs st) @ [fst q]"
proof -
  let ?S = "analyse ix c xs st"
  obtain n1 where n1: "toRemove ?S = toRemove st @ n1" "set n1 \<subseteq> fst ` set xs"
    using toRemove_analyse[of ix c xs st] by blast
  obtain n2 where n2: "toRemove (analyse ix c ys (analyse_prop ix c q ?S)) = toRemove (analyse_prop ix c q ?S) @ n2"
      "set n2 \<subseteq> fst ` set ys"
    using toRemove_analyse[of ix c ys "analyse_prop ix c q ?S"] by blast
  have q1: "fst q \<notin> set (toRemove st)" using assms(2) by auto
  have q2: "fst q \<notin> set n1" using assms(1) n1(2) by auto
  have q3: "fst q \<notin> set n2" using assms(1) n2(2) by auto
  have A: "analyse ix c (xs @ q # ys) st = analyse ix c ys (analyse_prop ix c q ?S)"
    by (simp add: analyse_append)
  from toRemove_step[of ix c q ?S] show ?thesis
  proof
    assume same: "toRemove (analyse_prop ix c q ?S) = toRemove ?S"
    then show ?thesis using A n1 n2 q1 q2 q3 by simp
  next
    assume add: "toRemove (analyse_prop ix c q ?S) = toRemove ?S @ [fst q]"
    then show ?thesis using A n2 by simp
  qed
qed

lemma toModify_own:
  assumes "distinct (map fst (xs @ q # ys))" and "fst ` set (toModify st) \<inter> fst ` set (xs @ q # ys) = {}"
  shows "fst q \<in> fst ` set (toModify (analyse ix c (xs @ q # ys) st)) \<longleftrightarrow>
         toModify (analyse_prop ix c q (analyse ix c xs st)) \<noteq> toModify (analyse ix c xs st)"
proof -
  let ?S = "analyse ix c xs st"
  obtain n1 where n1: "toModify ?S = toModify st @ n1" "fst ` set n1 \<subseteq> fst ` set xs"
    using toModify_analyse[of ix c xs st] by blast
  obtain n2 where n2: "toModify (analyse ix c ys (analyse_prop ix c q ?S)) = toModify (analyse_prop ix c q ?S) @ n2"
      "fst ` set n2 \<subseteq> fst ` set ys"
    using toModify_analyse[of ix c ys "analyse_prop ix c q ?S"] by blast
  have q1: "fst q \<notin> fst ` set (toModify st)" using assms(2) by auto
  have q2: "fst q \<notin> fst ` set n1" using assms(1) n1(2) by auto
  have q3: "fst q \<notin> fst ` set n2" using assms(1) n2(2) by auto
  have A: "analyse ix c (xs @ q # ys) st = analyse ix c ys (analyse_prop ix c q ?S)"
    by (simp add: analyse_append)
  from toModify_step[of ix c q ?S] show ?thesis
  proof (elim disjE exE conjE)
    assume same: "toModify (analyse_prop ix c q ?S) = toModify ?S"
    then show ?thesis using A n1 n2 q1 q2 q3 by (simp add: image_Un)
  next
    fix m assume add: "toModify (analyse_prop ix c q ?S) = toModify ?S @ [(fst q, m)]"
    then show ?thesis using A n2 by simp
  qed
qed

lemma toSetWidgetProp_own:
  assumes "distinct (map fst (xs @ q # ys))" and "fst ` set (toSetWidgetProp st) \<inter> fst ` set (xs @ q # ys) = {}"
  shows "fst q \<in> fst ` set (toSetWidgetProp (analyse ix c (xs @ q # ys) st)) \<longleftrightarrow>
         toSetWidgetProp (analyse_prop ix c q (analyse ix c xs st)) \<noteq> toSetWidgetProp (analyse ix c xs st)"
proof -
  let ?S = "analyse ix c xs st"
  obtain n1 where n1: "toSetWidgetProp ?S = toSetWidgetProp st @ n1" "fst ` set n1 \<subseteq> fst ` set xs"
    using toSetWidgetProp_analyse[of ix c xs st] by blast
  obtain n2 where n2: "toSetWidgetProp (analyse ix c ys (analyse_prop ix c q ?S)) = toSetWidgetProp (analyse_prop ix c q ?S) @ n2"
      "fst ` set n2 \<subseteq> fst ` set ys"
    using toSetWidgetProp_analyse[of ix c ys "analyse_prop ix c q ?S"] by blast
  have q1: "fst q \<notin> fst ` set (toSetWidgetProp st)" using assms(2) by auto
  have q2: "fst q \<notin> fst ` set n1" using assms(1) n1(2) by auto
  have q3: "fst q \<notin> fst ` set n2" using assms(1) n2(2) by auto
  have A: "analyse ix c (xs @ q # ys) st = analyse ix c ys (analyse_prop ix c q ?S)"
    by (simp add: analyse_append)
  from toSetWidgetProp_step[of ix c q ?S] show ?thesis
  proof (elim disjE exE)
    assume same: "toSetWidgetProp (analyse_prop ix c q ?S) = toSetWidgetProp ?S"
    then show ?thesis using A n1 n2 q1 q2 q3 by (simp add: image_Un)
  next
    fix m assume add: "toSetWidgetProp (analyse_prop ix c q ?S) = toSetWidgetProp ?S @ [(fst q, m)]"
    then show ?thesis using A n2 by simp
  qed
qed

lemma spacing_refs:
  "s_ref ` set (List.map_filter (contribution ix c) ps) = fst ` {p \<in> set ps. contribution ix c p \<noteq> None}"
proof -
  have "s_ref i = fst p" if "contribution ix c p = Some i" for p i
    using that by (auto simp: contribution_def split: option.splits if_splits)
  then show ?thesis
    by (auto simp: List.map_filter_def image_iff) force+
qed



subsection \<open>Operations on property lists\<close>

lemma remove_ref_keeps: "x \<in> set xs \<Longrightarrow> fst x \<noteq> r \<Longrightarrow> x \<in> set (remove_ref r xs)"
  by (induction xs) auto

lemma set_remove_ref: "set (remove_ref r xs) \<subseteq> set xs"
  by (induction xs) auto

lemma remove_ref_distinct:
  "distinct (map fst xs) \<Longrightarrow> remove_ref r xs = filter (\<lambda>x. fst x \<noteq> r) xs"
  by (induction xs) (auto simp: image_iff intro!: filter_True[symmetric])

lemma fold_remove_ref_distinct:
  "distinct (map fst xs) \<Longrightarrow> fold remove_ref rs xs = filter (\<lambda>x. fst x \<notin> set rs) xs"
proof (induction rs arbitrary: xs)
  case Nil
  then show ?case by simp
next
  case (Cons r rs)
  have d: "distinct (map fst (filter (\<lambda>x. fst x \<noteq> r) xs))"
    using Cons.prems by (simp add: distinct_map_filter)
  show ?case
    using Cons.IH[OF d] Cons.prems by (simp add: remove_ref_distinct conj_commute)
qed

lemma fold_remove_ref_keeps:
  "x \<in> set xs \<Longrightarrow> fst x \<notin> set rs \<Longrightarrow> x \<in> set (fold remove_ref rs xs)"
  by (induction rs arbitrary: xs) (auto intro: remove_ref_keeps)

lemma map_fst_update_ref: "map fst (update_ref r f xs) = map fst xs"
  by (simp add: update_ref_def comp_def)

lemma update_ref_keeps: "x \<in> set xs \<Longrightarrow> fst x \<noteq> r \<Longrightarrow> x \<in> set (update_ref r f xs)"
  by (auto simp: update_ref_def image_iff intro!: bexI[of _ x])


lemma map_fst_execute_modifications: "map fst (execute_modifications items xs) = map fst xs"
  unfolding execute_modifications_def
  by (induction items arbitrary: xs) (simp_all add: map_fst_update_ref)

lemma execute_modifications_keeps:
  "x \<in> set xs \<Longrightarrow> fst x \<notin> fst ` set items \<Longrightarrow> x \<in> set (execute_modifications items xs)"
  unfolding execute_modifications_def
  by (induction items arbitrary: xs) (auto intro: update_ref_keeps)

lemma set_allPropsToRemove:
  "set (allPropsToRemove st) = set (toRemove st) \<union> s_ref ` set (spacingPropertiesToMap st)"
proof -
  have "set (fold (\<lambda>item acc. if s_ref item \<in> set acc then acc else acc @ [s_ref item]) items acc)
          = set acc \<union> s_ref ` set items" for items acc
    by (induction items arbitrary: acc) auto
  then show ?thesis by (simp add: allPropsToRemove_def)
qed

lemma set_widget_prop_subset:
  "set (designProperties (set_widget_prop item w)) \<subseteq> set (designProperties w)"
  using set_remove_ref[of "fst item"]
  by (auto simp: set_widget_prop_def applyWidgetPropertyMapping_def assign_member_def
      split: sum.splits if_splits option.splits)

lemma set_widget_prop_keeps:
  "x \<in> set (designProperties w) \<Longrightarrow> fst x \<noteq> fst item \<Longrightarrow> x \<in> set (designProperties (set_widget_prop item w))"
  by (auto simp: set_widget_prop_def applyWidgetPropertyMapping_def assign_member_def remove_ref_keeps
      split: sum.splits if_splits option.splits)

lemma fold_set_widget_prop_subset:
  "set (designProperties (fold set_widget_prop items w)) \<subseteq> set (designProperties w)"
proof (induction items arbitrary: w)
  case Nil
  then show ?case by simp
next
  case (Cons i items)
  from Cons.IH[of "set_widget_prop i w"] set_widget_prop_subset[of i w] show ?case by auto
qed

lemma fold_set_widget_prop_keeps:
  "x \<in> set (designProperties w) \<Longrightarrow> fst x \<notin> fst ` set items \<Longrightarrow>
     x \<in> set (designProperties (fold set_widget_prop items w))"
  by (induction items arbitrary: w) (auto intro: set_widget_prop_keeps)

lemma fold_max_start: "a \<le> fold max ns (a::nat)"
proof (induction ns arbitrary: a)
  case Nil
  then show ?case by simp
next
  case (Cons m ns)
  have "a \<le> max m a" by simp
  also have "\<dots> \<le> fold max ns (max m a)" by (rule Cons.IH)
  finally show ?case by simp
qed

lemma fold_max_member: "n \<in> set ns \<Longrightarrow> n \<le> fold max ns (a::nat)"
proof (induction ns arbitrary: a)
  case Nil
  then show ?case by simp
next
  case (Cons m ns)
  show ?case
  proof (cases "n = m")
    case True
    have "m \<le> max m a" by simp
    also have "\<dots> \<le> fold max ns (max m a)" by (rule fold_max_start)
    finally show ?thesis using True by simp
  next
    case False
    with Cons show ?thesis by simp
  qed
qed

lemma fresh_ref_new: "fresh_ref xs \<notin> fst ` set xs"
proof
  assume "fresh_ref xs \<in> fst ` set xs"
  then have "fresh_ref xs \<in> set (map fst xs)" by simp
  then have "fresh_ref xs \<le> fold max (map fst xs) 0" by (rule fold_max_member)
  then show False by (simp add: fresh_ref_def)
qed


subsection \<open>The result of processWidget on a widget it processes\<close>

lemma spacing_stage_fields:
  "toModify (fst (snd (spacing_stage c e ps st))) = toModify st"
  "toRemove (fst (snd (spacing_stage c e ps st))) = toRemove st"
  "toSetWidgetProp (fst (snd (spacing_stage c e ps st))) = toSetWidgetProp st"
  "spacingPropertiesToMap (fst (snd (spacing_stage c e ps st))) = spacingPropertiesToMap st"
  "csvData (fst (snd (spacing_stage c e ps st))) = csvData st @ map (spacing_row c) (spacingPropertiesToMap st)"
  "removed (result (fst (snd (spacing_stage c e ps st)))) = removed (result st)"
  "skipped (result (fst (snd (spacing_stage c e ps st)))) = skipped (result st)"
  "props (result (fst (snd (spacing_stage c e ps st)))) = props (result st)"
  "mapped (result (fst (snd (spacing_stage c e ps st)))) = mapped (result st) + length (spacingPropertiesToMap st)"
  by (simp_all add: spacing_stage_def Let_def)

lemma allPropsToRemove_spacing_stage:
  "allPropsToRemove (fst (snd (spacing_stage c e ps st))) = allPropsToRemove st"
  by (simp add: allPropsToRemove_def spacing_stage_fields)

lemma processWidget_target:
  assumes "designProperties w \<noteq> []" and "getWidgetTypeName w \<in> TARGET_ELEMENT_TYPES"
  shows "processWidget ix w dn dt mn csv =
     (let c = widget_context w dn mn;
          A = analyse ix c (designProperties w) (init_analysis csv);
          staged = spacing_stage c (existing_spacing (designProperties w)) (designProperties w) A
      in \<lparr>counts = result (fst (snd staged)),
          after = fold set_widget_prop (toSetWidgetProp A)
                    (w\<lparr>designProperties :=
                        execute_removals (allPropsToRemove A) (execute_modifications (toModify A) (fst staged))\<rparr>),
          rows = csvData A @ map (spacing_row c) (spacingPropertiesToMap A),
          printed = snd (snd staged)\<rparr>)"
  using assms
  by (simp add: processWidget_def Let_def widget_context_def spacing_stage_fields
      allPropsToRemove_spacing_stage)

lemma processWidget_other:
  "designProperties w = [] \<or> getWidgetTypeName w \<notin> TARGET_ELEMENT_TYPES \<Longrightarrow>
     processWidget ix w dn dt mn csv = \<lparr>counts = zero_result, after = w, rows = csv, printed = []\<rparr>"
  by (auto simp: processWidget_def Let_def widget_context_def)

lemma spacing_stage_list:
  "fst (spacing_stage c e ps st) =
     (if spacingPropertiesToMap st = [] then ps
      else (case e of None \<Rightarrow> ps @ [(fresh_ref ps, aggregate None (spacingPropertiesToMap st))]
            | Some x \<Rightarrow> remove_ref (fst x)
                (ps @ [(fresh_ref ps, aggregate (Some (snd x)) (spacingPropertiesToMap st))])))"
  by (simp add: spacing_stage_def Let_def split: option.splits)

text \<open>The refs of the list a processed widget is left with.\<close>

lemma final_refs:
  assumes "designProperties w \<noteq> []" and "getWidgetTypeName w \<in> TARGET_ELEMENT_TYPES"
    and "distinct (map fst (designProperties w))"
    and A_def: "A = analyse ix (widget_context w dn mn) (designProperties w) (init_analysis csv)"
  shows "fst ` set (designProperties (after (processWidget ix w dn dt mn csv)))
           \<subseteq> insert (fresh_ref (designProperties w)) (fst ` set (designProperties w)) - set (allPropsToRemove A)"
proof -
  let ?ps = "designProperties w"
  let ?c = "widget_context w dn mn"
  let ?staged = "fst (spacing_stage ?c (existing_spacing ?ps) ?ps A)"
  have sub: "set ?staged \<subseteq> set (?ps @ [(fresh_ref ?ps, aggregate (map_option snd (existing_spacing ?ps)) (spacingPropertiesToMap A))])"
  proof (cases "spacingPropertiesToMap A = []")
    case True
    then show ?thesis by (auto simp: spacing_stage_list)
  next
    case False
    show ?thesis
    proof (cases "existing_spacing ?ps")
      case None
      with False show ?thesis by (simp add: spacing_stage_list)
    next
      case (Some x)
      with False show ?thesis
        using set_remove_ref[of "fst x" "?ps @ [(fresh_ref ?ps, aggregate (Some (snd x)) (spacingPropertiesToMap A))]"]
        by (simp add: spacing_stage_list)
    qed
  qed
  have "distinct (map fst (?ps @ [(fresh_ref ?ps, aggregate (map_option snd (existing_spacing ?ps)) (spacingPropertiesToMap A))]))"
    using assms(3) fresh_ref_new[of ?ps] by simp
  then have dist: "distinct (map fst ?staged)"
    by (auto simp: spacing_stage_list remove_ref_distinct distinct_map_filter assms(3) split: option.splits)
  let ?modified = "execute_modifications (toModify A) ?staged"
  have dm: "distinct (map fst ?modified)" using dist by (simp add: map_fst_execute_modifications)
  have refs_mod: "fst ` set ?modified = fst ` set ?staged"
    using map_fst_execute_modifications[of "toModify A" ?staged] by (metis list.set_map)
  let ?cleaned = "execute_removals (allPropsToRemove A) ?modified"
  have "fst ` set ?cleaned \<subseteq> fst ` set ?modified - set (allPropsToRemove A)"
    using dm by (auto simp: execute_removals_def fold_remove_ref_distinct)
  also have "\<dots> \<subseteq> insert (fresh_ref ?ps) (fst ` set ?ps) - set (allPropsToRemove A)"
    using sub refs_mod by auto
  finally have cleaned: "fst ` set ?cleaned \<subseteq> insert (fresh_ref ?ps) (fst ` set ?ps) - set (allPropsToRemove A)" .
  have "set (designProperties (after (processWidget ix w dn dt mn csv))) \<subseteq> set ?cleaned"
    using fold_set_widget_prop_subset[of "toSetWidgetProp A" "w\<lparr>designProperties := ?cleaned\<rparr>"]
    by (simp add: processWidget_target[OF assms(1,2)] Let_def A_def)
  with cleaned show ?thesis by blast
qed

text \<open>A property that no queue holds and that the aggregation does not replace stays as it is.\<close>

lemma final_keeps:
  assumes "designProperties w \<noteq> []" and "getWidgetTypeName w \<in> TARGET_ELEMENT_TYPES"
    and A_def: "A = analyse ix (widget_context w dn mn) (designProperties w) (init_analysis csv)"
    and "x \<in> set (designProperties w)"
    and "fst x \<notin> fst ` set (toModify A)" and "fst x \<notin> set (allPropsToRemove A)"
    and "fst x \<notin> fst ` set (toSetWidgetProp A)"
    and "spacingPropertiesToMap A = [] \<or> (\<forall>e. existing_spacing (designProperties w) = Some e \<longrightarrow> fst e \<noteq> fst x)"
  shows "x \<in> set (designProperties (after (processWidget ix w dn dt mn csv)))"
proof -
  let ?ps = "designProperties w"
  let ?c = "widget_context w dn mn"
  let ?staged = "fst (spacing_stage ?c (existing_spacing ?ps) ?ps A)"
  have "x \<in> set ?staged"
    using assms(4,8) by (auto simp: spacing_stage_list intro: remove_ref_keeps split: option.splits)
  then have "x \<in> set (execute_modifications (toModify A) ?staged)"
    using assms(5) by (rule execute_modifications_keeps)
  then have "x \<in> set (execute_removals (allPropsToRemove A) (execute_modifications (toModify A) ?staged))"
    using assms(6) unfolding execute_removals_def by (rule fold_remove_ref_keeps)
  then show ?thesis
    using assms(7) by (simp add: processWidget_target[OF assms(1,2)] Let_def A_def[symmetric] fold_set_widget_prop_keeps)
qed



section \<open>The analysis loop and its queues: theorems\<close>

lemma init_fields [simp]:
  "toRemove (init_analysis csv) = []" "toModify (init_analysis csv) = []"
  "toSetWidgetProp (init_analysis csv) = []" "spacingPropertiesToMap (init_analysis csv) = []"
  "csvData (init_analysis csv) = csv" "mappedTargetProperties (init_analysis csv) = {}"
  "skippedProps (init_analysis csv) = []" "result (init_analysis csv) = zero_result"
  by (simp_all add: init_analysis_def)

lemma zero_fields [simp]:
  "removed zero_result = 0" "mapped zero_result = 0" "skipped zero_result = 0" "props zero_result = 0"
  "widgetPropsMapped zero_result = 0" "widgets zero_result = 0"
  by (simp_all add: zero_result_def)

lemma contribution_ref: "contribution ix c p = Some i \<Longrightarrow> s_ref i = fst p \<and> s_prop i = snd p"
  by (auto simp: contribution_def split: option.splits if_splits)

lemma in_map_filter: "p \<in> set ps \<Longrightarrow> f p = Some i \<Longrightarrow> i \<in> set (List.map_filter f ps)"
  by (force simp: List.map_filter_def)

text \<open>
  C7. On a widget that is processed, a property whose rule is a spacing rule is queued as
  a contribution; its iteration of the analysis loop changes nothing but the property
  count and that queue (no row, no removal, no removed count); the aggregation records it
  with a row whose decision is "mapped" and whose mapped property is "Spacing"; it is not
  in \<open>toRemove\<close>, whose length is the removed count, while the mapped count includes every
  contribution; and the property is no longer in the widget's property list afterwards.
\<close>

theorem spacing_sources_recorded_mapped:
  assumes target: "getWidgetTypeName w \<in> TARGET_ELEMENT_TYPES"
    and dist: "distinct (map fst (designProperties w))"
    and p: "p \<in> set (designProperties w)"
    and c: "c = widget_context w dn mn"
    and i: "contribution ix c p = Some i"
    and A: "A = analyse ix c (designProperties w) (init_analysis csv)"
    and out: "out = processWidget ix w dn dt mn csv"
  shows "i \<in> set (spacingPropertiesToMap A) \<and>
     (\<forall>st. analyse_prop ix c p st =
         st\<lparr>result := (result st)\<lparr>props := props (result st) + 1\<rparr>,
            spacingPropertiesToMap := spacingPropertiesToMap st @ [i]\<rparr>) \<and>
     rows out = csvData A @ map (spacing_row c) (spacingPropertiesToMap A) \<and>
     spacing_row c i \<in> set (rows out) \<and>
     csv_property (spacing_row c i) = key (snd p) \<and>
     csv_action (spacing_row c i) = Mapped \<and>
     csv_mappedProperty (spacing_row c i) = ''Spacing'' \<and>
     fst p \<notin> set (toRemove A) \<and>
     removed (counts out) = length (toRemove A) \<and>
     mapped (counts out) = length (toModify A) + length (spacingPropertiesToMap A) \<and>
     fst p \<notin> fst ` set (designProperties (after out))"
proof -
  let ?ps = "designProperties w"
  have ne: "?ps \<noteq> []" using p by auto
  have queue: "spacingPropertiesToMap A = List.map_filter (contribution ix c) ?ps"
    by (simp add: A spacing_queue)
  have 1: "i \<in> set (spacingPropertiesToMap A)"
    unfolding queue using p i by (rule in_map_filter)
  have 2: "\<forall>st. analyse_prop ix c p st =
         st\<lparr>result := (result st)\<lparr>props := props (result st) + 1\<rparr>,
            spacingPropertiesToMap := spacingPropertiesToMap st @ [i]\<rparr>"
    using i by (simp add: analyse_prop_contribution)
  have unfold: "out = (let staged = spacing_stage c (existing_spacing ?ps) ?ps A
      in \<lparr>counts = result (fst (snd staged)),
          after = fold set_widget_prop (toSetWidgetProp A)
                    (w\<lparr>designProperties :=
                        execute_removals (allPropsToRemove A) (execute_modifications (toModify A) (fst staged))\<rparr>),
          rows = csvData A @ map (spacing_row c) (spacingPropertiesToMap A),
          printed = snd (snd staged)\<rparr>)"
    unfolding out processWidget_target[OF ne target] by (simp add: Let_def c A)
  have 3: "rows out = csvData A @ map (spacing_row c) (spacingPropertiesToMap A)"
    by (simp add: unfold Let_def)
  have 4: "spacing_row c i \<in> set (rows out)" using 1 by (simp add: 3)
  have 5: "csv_property (spacing_row c i) = key (snd p)" "csv_action (spacing_row c i) = Mapped"
    "csv_mappedProperty (spacing_row c i) = ''Spacing''"
    using contribution_ref[OF i] by (simp_all add: spacing_row_def csv_row_def)
  obtain xs ys where split: "?ps = xs @ p # ys" using p by (auto dest: split_list)
  have 6: "fst p \<notin> set (toRemove A)"
  proof -
    have "toRemove (analyse_prop ix c p (analyse ix c xs (init_analysis csv)))
            \<noteq> toRemove (analyse ix c xs (init_analysis csv)) @ [fst p]"
      by (simp add: analyse_prop_contribution[OF i])
    then show ?thesis
      using toRemove_own[of xs p ys "init_analysis csv" ix c] dist split by (simp add: A)
  qed
  have cnt: "removed (result A) = length (toRemove A)" "mapped (result A) = length (toModify A)"
    using counts_analyse[of ix c ?ps "init_analysis csv"] by (simp_all add: A)
  have 7: "removed (counts out) = length (toRemove A)"
    by (simp add: unfold Let_def spacing_stage_fields cnt)
  have 8: "mapped (counts out) = length (toModify A) + length (spacingPropertiesToMap A)"
    by (simp add: unfold Let_def spacing_stage_fields cnt)
  have 9: "fst p \<notin> fst ` set (designProperties (after out))"
  proof -
    have "fst p \<in> set (allPropsToRemove A)"
      using 1 contribution_ref[OF i] by (force simp: set_allPropsToRemove)
    then show ?thesis
      using final_refs[OF ne target dist, of A ix dn mn csv dt] by (auto simp: A c out)
  qed
  from 1 2 3 4 5 6 7 8 9 show ?thesis by blast
qed



lemma ex_names: "MAPPED_PROPERTY_NAMES ex_index =
    {''Justify content'', ''Render children horizontal'', ''Margin top'', ''Padding left''}"
  by (auto simp: ex_index_def build_index_def not_comment_def add_mapping_def empty_index_def
      ex_rule_first_def ex_rule_horizontal_def ex_rule_margin_top_def ex_rule_padding_left_def)

lemma ex_lookup:
  "MAPPINGS_LOOKUP ex_index k =
     (if k = ''Padding left|Large|*'' then Some ex_rule_padding_left
      else if k = ''Margin top|Small|*'' then Some ex_rule_margin_top
      else if k = ''Render children horizontal|true|*'' then Some ex_rule_horizontal
      else if k = ''Justify content|Center|DivContainer'' \<or> k = ''Justify content|Center|ListView''
        then Some ex_rule_first
      else None)"
  unfolding ex_index_def build_index_def
  by (simp add: not_comment_def lookup_add_mapping produces_key_def lookup_key_def empty_index_def
      ex_rule_first_def ex_rule_horizontal_def ex_rule_margin_top_def ex_rule_padding_left_def)

lemma ex_type: "getWidgetTypeName ex_widget = ''DivContainer''"
  by (simp add: getWidgetTypeName_def ex_widget_def)

lemma ex_context_type: "widgetType ex_context = ''DivContainer''"
  by (simp add: ex_context_def widget_context_def ex_type)

lemma ex_rule_of:
  "rule_of ex_index ex_context \<lparr>key = ''Justify content'', dvalue = VOption ''Center''\<rparr> = Some ex_rule_first"
  "rule_of ex_index ex_context \<lparr>key = ''Render children horizontal'', dvalue = VToggle\<rparr> = Some ex_rule_horizontal"
  "rule_of ex_index ex_context \<lparr>key = ''Margin top'', dvalue = VOption ''Small''\<rparr> = Some ex_rule_margin_top"
  "rule_of ex_index ex_context \<lparr>key = ''Justify content'', dvalue = VOption ''Stretch''\<rparr> = None"
  "rule_of ex_index ex_context \<lparr>key = ''Padding left'', dvalue = VNull\<rparr> = None"
  by (simp_all add: rule_of_def passed_over_def ex_names extractPropertyValue_def findMapping_def
      ex_lookup lookup_key_def ex_context_type)


lemma ex_target: "getWidgetTypeName ex_widget \<in> TARGET_ELEMENT_TYPES"
  by (simp add: ex_type TARGET_ELEMENT_TYPES_def)

lemma ex_distinct: "distinct (map fst (designProperties ex_widget))"
  by (simp add: ex_widget_def ex_props_def)

lemma ex_contribution:
  "contribution ex_index ex_context (2, \<lparr>key = ''Margin top'', dvalue = VOption ''Small''\<rparr>) = Some ex_item_margin_top"
  by (simp add: contribution_def ex_rule_of is_spacing_rule_def ex_item_margin_top_def ex_rule_margin_top_def)

theorem spacing_sources_recorded_mapped_witness:
  "ex_item_margin_top \<in> set (spacingPropertiesToMap (analyse ex_index ex_context ex_props (init_analysis []))) \<and>
   spacing_row ex_context ex_item_margin_top \<in> set (rows (processWidget ex_index ex_widget ''Shop.Home'' ''Page'' ''Shop'' [])) \<and>
   csv_action (spacing_row ex_context ex_item_margin_top) = Mapped \<and>
   2 \<notin> set (toRemove (analyse ex_index ex_context ex_props (init_analysis []))) \<and>
   2 \<notin> fst ` set (designProperties (after (processWidget ex_index ex_widget ''Shop.Home'' ''Page'' ''Shop'' [])))"
proof -
  have p: "(2, \<lparr>key = ''Margin top'', dvalue = VOption ''Small''\<rparr>) \<in> set (designProperties ex_widget)"
    by (simp add: ex_widget_def ex_props_def)
  have ps: "designProperties ex_widget = ex_props" by (simp add: ex_widget_def)
  from spacing_sources_recorded_mapped[OF ex_target ex_distinct p ex_context_def ex_contribution refl refl,
      of "[]" "''Page''"]
  show ?thesis by (simp add: ps)
qed









lemma existing_spacing_key: "existing_spacing ps = Some e \<Longrightarrow> e \<in> set ps \<and> key (snd e) = ''Spacing''"
  by (auto simp: existing_spacing_def find_Some_iff)


lemma ref_determines:
  "distinct (map fst ps) \<Longrightarrow> a \<in> set ps \<Longrightarrow> b \<in> set ps \<Longrightarrow> fst a = fst b \<Longrightarrow> a = b"
  by (auto simp: distinct_map dest: inj_onD)

lemma not_contribution_unqueued:
  assumes "distinct (map fst ps)" and "p \<in> set ps" and "contribution ix c p = None"
  shows "fst p \<notin> s_ref ` set (List.map_filter (contribution ix c) ps)"
proof
  assume "fst p \<in> s_ref ` set (List.map_filter (contribution ix c) ps)"
  then obtain p' where p': "p' \<in> set ps" "contribution ix c p' \<noteq> None" "fst p' = fst p"
    unfolding spacing_refs by auto
  from ref_determines[OF assms(1) p'(1) assms(2) p'(3)] p'(2) assms(3) show False by simp
qed















lemma no_rule_step:
  assumes "rule_of ix c (snd p) = None"
  shows "toModify (analyse_prop ix c p st) = toModify st"
    and "toRemove (analyse_prop ix c p st) = toRemove st"
    and "toSetWidgetProp (analyse_prop ix c p st) = toSetWidgetProp st"
    and "csvData (analyse_prop ix c p st) = csvData st"
proof -
  have "passed_over ix (snd p) \<or> unmapped ix c (snd p)"
    using assms by (auto simp: rule_of_def unmapped_def split: if_splits)
  then show "toModify (analyse_prop ix c p st) = toModify st"
    and "toRemove (analyse_prop ix c p st) = toRemove st"
    and "toSetWidgetProp (analyse_prop ix c p st) = toSetWidgetProp st"
    and "csvData (analyse_prop ix c p st) = csvData st"
    by (auto simp: analyse_prop_passed_over analyse_prop_unmapped)
qed

text \<open>A property without rule is in no queue; unless the aggregation replaces it, it stays.\<close>

lemma no_rule_survives:
  assumes target: "getWidgetTypeName w \<in> TARGET_ELEMENT_TYPES"
    and dist: "distinct (map fst (designProperties w))"
    and p: "p \<in> set (designProperties w)"
    and c: "c = widget_context w dn mn"
    and none: "rule_of ix c (snd p) = None"
    and keep: "\<not> replaced_by_aggregation ix c (designProperties w) p"
  shows "p \<in> set (designProperties (after (processWidget ix w dn dt mn csv)))"
proof -
  let ?ps = "designProperties w"
  let ?init = "init_analysis csv"
  let ?A = "analyse ix c ?ps ?init"
  have ne: "?ps \<noteq> []" using p by auto
  obtain xs ys where split: "?ps = xs @ p # ys" using p by (auto dest: split_list)
  note step = no_rule_step[OF none]
  have m: "fst p \<notin> fst ` set (toModify ?A)"
    using toModify_own[of xs p ys ?init ix c] dist split step(1) by simp
  have r: "fst p \<notin> set (toRemove ?A)"
    using toRemove_own[of xs p ys ?init ix c] dist split step(2) by simp
  have wp: "fst p \<notin> fst ` set (toSetWidgetProp ?A)"
    using toSetWidgetProp_own[of xs p ys ?init ix c] dist split step(3) by simp
  have sp_q: "spacingPropertiesToMap ?A = List.map_filter (contribution ix c) ?ps"
    by (simp add: spacing_queue)
  have "contribution ix c p = None" using none by (simp add: contribution_def)
  then have s: "fst p \<notin> s_ref ` set (spacingPropertiesToMap ?A)"
    unfolding sp_q by (rule not_contribution_unqueued[OF dist p])
  have sp: "spacingPropertiesToMap ?A = [] \<or> (\<forall>e. existing_spacing ?ps = Some e \<longrightarrow> fst e \<noteq> fst p)"
  proof (cases "List.map_filter (contribution ix c) ?ps = []")
    case True
    then show ?thesis by (simp add: sp_q)
  next
    case False
    with keep have other: "existing_spacing ?ps \<noteq> Some p" by (simp add: replaced_by_aggregation_def)
    show ?thesis
    proof (intro disjI2 allI impI notI)
      fix e assume e: "existing_spacing ?ps = Some e" and same: "fst e = fst p"
      from existing_spacing_key[OF e] have "e \<in> set ?ps" by simp
      from ref_determines[OF dist this p same] e other show False by simp
    qed
  qed
  show ?thesis
    using final_keeps[OF ne target _ p, of ?A ix dn mn csv dt] m r s wp sp
    by (simp add: c set_allPropsToRemove)
qed

lemma analyse_drop:
  "(\<forall>st. analyse_prop ix c p st = st) \<Longrightarrow> analyse ix c (xs @ p # ys) st0 = analyse ix c (xs @ ys) st0"
  by (simp add: analyse_append)

text \<open>
  C9, amended. A property whose extracted value is the empty string is passed over by the
  analysis loop before any lookup: its iteration leaves the loop's state as it is, so the
  counts, the rows and the queues are those of the list without it, whatever rules exist
  for its name; and it stays in the widget's list unchanged, unless it is the widget's
  existing "Spacing" property and the widget has a spacing contribution (the aggregation
  then replaces it).
\<close>

theorem empty_value_passed_over:
  assumes empty: "extractPropertyValue (snd p) = []"
  shows "(\<forall>st. analyse_prop ix c p st = st) \<and>
         analyse ix c (xs @ p # ys) st0 = analyse ix c (xs @ ys) st0 \<and>
         rule_of ix c (snd p) = None \<and>
         (distinct (map fst (designProperties w)) \<and> p \<in> set (designProperties w) \<and>
          \<not> replaced_by_aggregation ix (widget_context w dn mn) (designProperties w) p
            \<longrightarrow> p \<in> set (designProperties (after (processWidget ix w dn dt mn csv))))"
proof -
  have po: "passed_over ix (snd p)" using empty by (simp add: passed_over_def)
  then have 1: "\<forall>st. analyse_prop ix c p st = st" by (simp add: analyse_prop_passed_over)
  then have 2: "analyse ix c (xs @ p # ys) st0 = analyse ix c (xs @ ys) st0" by (rule analyse_drop)
  have 3: "rule_of ix c' (snd p) = None" for c' using po by (simp add: rule_of_def)
  have 4: "p \<in> set (designProperties (after (processWidget ix w dn dt mn csv)))"
    if h: "distinct (map fst (designProperties w)) \<and> p \<in> set (designProperties w) \<and>
          \<not> replaced_by_aggregation ix (widget_context w dn mn) (designProperties w) p"
  proof (cases "getWidgetTypeName w \<in> TARGET_ELEMENT_TYPES")
    case True
    from h show ?thesis
      by (intro no_rule_survives[OF True _ _ refl 3]) simp_all
  next
    case False
    then show ?thesis using h by (simp add: processWidget_other)
  qed
  from 1 2 3 4 show ?thesis by blast
qed

text \<open>
  C6, amended. On a processed widget, a property that reaches the lookup (it has a key
  for which some rule exists and a non-empty value) and has neither an exact nor a wildcard
  rule is counted in the property and skipped totals and noted in \<open>skippedProps\<close>, its
  iteration changes nothing else, the skipped total is the number of such properties, and
  the property stays in the widget's list unchanged unless the aggregation replaces it as
  the existing "Spacing" property. A property without key, with a key that has no rule at
  all or with an empty value is passed over: its iteration changes nothing, no count either.
\<close>

theorem unmapped_counted_skipped:
  assumes target: "getWidgetTypeName w \<in> TARGET_ELEMENT_TYPES"
    and dist: "distinct (map fst (designProperties w))"
    and p: "p \<in> set (designProperties w)"
    and c: "c = widget_context w dn mn"
    and un: "unmapped ix c (snd p)"
    and out: "out = processWidget ix w dn dt mn csv"
  shows "(\<forall>st. analyse_prop ix c p st =
            st\<lparr>result := (result st)\<lparr>props := props (result st) + 1, skipped := skipped (result st) + 1\<rparr>,
               skippedProps := skippedProps st @
                 [(key (snd p), extractPropertyValue (snd p),
                   ''No mapping defined for this property/value/element combination'')]\<rparr>) \<and>
         skipped (counts out) = length (filter (\<lambda>q. unmapped ix c (snd q)) (designProperties w)) \<and>
         0 < skipped (counts out) \<and>
         (\<not> replaced_by_aggregation ix c (designProperties w) p \<longrightarrow> p \<in> set (designProperties (after out))) \<and>
         (\<forall>q st. passed_over ix (snd q) \<longrightarrow> analyse_prop ix c q st = st)"
proof -
  let ?ps = "designProperties w"
  have ne: "?ps \<noteq> []" using p by auto
  have 1: "\<forall>st. analyse_prop ix c p st =
            st\<lparr>result := (result st)\<lparr>props := props (result st) + 1, skipped := skipped (result st) + 1\<rparr>,
               skippedProps := skippedProps st @
                 [(key (snd p), extractPropertyValue (snd p),
                   ''No mapping defined for this property/value/element combination'')]\<rparr>"
    using un by (simp add: analyse_prop_unmapped)
  have 2: "skipped (counts out) = length (filter (\<lambda>q. unmapped ix c (snd q)) ?ps)"
    using counts_analyse[of ix c ?ps "init_analysis csv"]
    unfolding out processWidget_target[OF ne target] by (simp add: Let_def c spacing_stage_fields)
  have "p \<in> set (filter (\<lambda>q. unmapped ix c (snd q)) ?ps)" using p un by simp
  then have "filter (\<lambda>q. unmapped ix c (snd q)) ?ps \<noteq> []" by (metis empty_iff list.set(1))
  then have 3: "0 < skipped (counts out)" unfolding 2 by simp
  have none: "rule_of ix c (snd p) = None" using un by (simp add: rule_of_def unmapped_def)
  have 4: "p \<in> set (designProperties (after out))" if "\<not> replaced_by_aggregation ix c ?ps p"
    unfolding out by (rule no_rule_survives[OF target dist p c none that])
  have 5: "\<forall>q st. passed_over ix (snd q) \<longrightarrow> analyse_prop ix c q st = st"
    by (simp add: analyse_prop_passed_over)
  from 1 2 3 4 5 show ?thesis by blast
qed


lemma ex_types:
  "getWidgetTypeName ex_spacing_widget = ''DivContainer''"
  "getWidgetTypeName ex_plain_widget = ''DivContainer''"
  by (simp_all add: getWidgetTypeName_def ex_spacing_widget_def ex_plain_widget_def)

lemma ex_find:
  "findMapping ex_index ''Opacity'' ''Half'' ''DivContainer'' = None"
  "findMapping ex_index ''Justify content'' ''Stretch'' ''DivContainer'' = None"
  "findMapping ex_index ''Margin top'' ''Small'' ''DivContainer'' = Some ex_rule_margin_top"
  by (simp_all add: findMapping_def ex_lookup lookup_key_def)

text \<open>
  C9, as stated, fails: the "Spacing" property of this widget has no value, and
  \<open>processWidget\<close> removes it; the list is left with the new compound property only.
\<close>

theorem empty_value_replaced_counterexample:
  "extractPropertyValue \<lparr>key = ''Spacing'', dvalue = VNull\<rparr> = [] \<and>
   (10, \<lparr>key = ''Spacing'', dvalue = VNull\<rparr>) \<in> set (designProperties ex_spacing_widget) \<and>
   designProperties (after (processWidget ex_index ex_spacing_widget ''Shop.Home'' ''Page'' ''Shop'' []))
     = [(12, \<lparr>key = ''Spacing'', dvalue = VCompound [(''margin-top'', VOption ''Small'')]\<rparr>)]"
proof -
  let ?c = "widget_context ex_spacing_widget ''Shop.Home'' ''Shop''"
  let ?item = "\<lparr>s_ref = 11, s_prop = \<lparr>key = ''Margin top'', dvalue = VOption ''Small''\<rparr>,
      s_mapping = ex_rule_margin_top, direction = ''top'', spacingType = Margin\<rparr>"
  have ps: "designProperties ex_spacing_widget =
      [(10, \<lparr>key = ''Spacing'', dvalue = VNull\<rparr>), (11, \<lparr>key = ''Margin top'', dvalue = VOption ''Small''\<rparr>)]"
    by (simp add: ex_spacing_widget_def)
  have ty: "widgetType ?c = ''DivContainer''" by (simp add: widget_context_def ex_types)
  have s0: "analyse_prop ex_index ?c (10, \<lparr>key = ''Spacing'', dvalue = VNull\<rparr>) st = st" for st
    by (simp add: analyse_prop_passed_over passed_over_def ex_names)
  have s1: "contribution ex_index ?c (11, \<lparr>key = ''Margin top'', dvalue = VOption ''Small''\<rparr>) = Some ?item"
    by (simp add: contribution_def rule_of_def passed_over_def ex_names extractPropertyValue_def ty ex_find
        is_spacing_rule_def ex_rule_margin_top_def)
  have A: "analyse ex_index ?c (designProperties ex_spacing_widget) (init_analysis [])
      = (init_analysis [])\<lparr>result := zero_result\<lparr>props := 1\<rparr>, spacingPropertiesToMap := [?item]\<rparr>"
    unfolding ps by (simp add: s0 analyse_prop_contribution[OF s1])
  have agg: "aggregate (Some \<lparr>key = ''Spacing'', dvalue = VNull\<rparr>) [?item]
      = \<lparr>key = ''Spacing'', dvalue = VCompound [(''margin-top'', VOption ''Small'')]\<rparr>"
    by (simp add: aggregate_def fst_merge_spacing seed_state_def parseSpacingState_def none_state_def
        none_sides_def overwrite_def set_layer_def layer_def materialize_def addInnerProp_def side_val_def
        show_undefined_def item_dir_def item_val_def ex_rule_margin_top_def)
  have ne: "designProperties ex_spacing_widget \<noteq> []" by (simp add: ps)
  have tg: "getWidgetTypeName ex_spacing_widget \<in> TARGET_ELEMENT_TYPES"
    by (simp add: ex_types TARGET_ELEMENT_TYPES_def)
  have "designProperties (after (processWidget ex_index ex_spacing_widget ''Shop.Home'' ''Page'' ''Shop'' []))
     = [(12, \<lparr>key = ''Spacing'', dvalue = VCompound [(''margin-top'', VOption ''Small'')]\<rparr>)]"
    unfolding processWidget_target[OF ne tg] Let_def A
    by (simp add: ps spacing_stage_list existing_spacing_def agg fresh_ref_def
        execute_modifications_def allPropsToRemove_def execute_removals_def)
  then show ?thesis by (simp add: extractPropertyValue_def ps)
qed

theorem empty_value_passed_over_witness:
  "analyse_prop ex_index ex_context (4, \<lparr>key = ''Padding left'', dvalue = VNull\<rparr>) (init_analysis [])
     = init_analysis [] \<and>
   (4, \<lparr>key = ''Padding left'', dvalue = VNull\<rparr>)
     \<in> set (designProperties (after (processWidget ex_index ex_widget ''Shop.Home'' ''Page'' ''Shop'' [])))"
proof -
  let ?p = "(4::nat, \<lparr>key = ''Padding left'', dvalue = VNull\<rparr>)"
  have e: "extractPropertyValue (snd ?p) = []" by (simp add: extractPropertyValue_def)
  have keep: "\<not> replaced_by_aggregation ex_index (widget_context ex_widget ''Shop.Home'' ''Shop'')
      (designProperties ex_widget) ?p"
    by (simp add: replaced_by_aggregation_def existing_spacing_def ex_widget_def ex_props_def)
  have p: "?p \<in> set (designProperties ex_widget)" by (simp add: ex_widget_def ex_props_def)
  note inst = empty_value_passed_over[OF e, of ex_index ex_context "[]" "[]" "init_analysis []" ex_widget
      "''Shop.Home''" "''Shop''" "''Page''" "[]"]
  from inst ex_distinct p keep show ?thesis by blast
qed

text \<open>
  C6, as stated, fails: neither property of this widget has an exact or a wildcard rule;
  the skipped total is 1, not 2 (the name "Opacity" has no rule at all and is passed over
  uncounted), and no row is recorded.
\<close>

theorem unmapped_not_recorded_counterexample:
  "findMapping ex_index ''Opacity'' ''Half'' (getWidgetTypeName ex_plain_widget) = None \<and>
   findMapping ex_index ''Justify content'' ''Stretch'' (getWidgetTypeName ex_plain_widget) = None \<and>
   getWidgetTypeName ex_plain_widget \<in> TARGET_ELEMENT_TYPES \<and>
   skipped (counts (processWidget ex_index ex_plain_widget ''Shop.Home'' ''Page'' ''Shop'' [])) = 1 \<and>
   rows (processWidget ex_index ex_plain_widget ''Shop.Home'' ''Page'' ''Shop'' []) = []"
proof -
  let ?c = "widget_context ex_plain_widget ''Shop.Home'' ''Shop''"
  have ps: "designProperties ex_plain_widget =
      [(10, \<lparr>key = ''Opacity'', dvalue = VOption ''Half''\<rparr>),
       (11, \<lparr>key = ''Justify content'', dvalue = VOption ''Stretch''\<rparr>)]"
    by (simp add: ex_plain_widget_def)
  have ty: "widgetType ?c = ''DivContainer''" by (simp add: widget_context_def ex_types)
  have s0: "analyse_prop ex_index ?c (10, \<lparr>key = ''Opacity'', dvalue = VOption ''Half''\<rparr>) st = st" for st
    by (simp add: analyse_prop_passed_over passed_over_def ex_names)
  have u: "unmapped ex_index ?c (snd (11::nat, \<lparr>key = ''Justify content'', dvalue = VOption ''Stretch''\<rparr>))"
    by (simp add: unmapped_def passed_over_def ex_names extractPropertyValue_def ty ex_find)
  have ne: "designProperties ex_plain_widget \<noteq> []" by (simp add: ps)
  have tg: "getWidgetTypeName ex_plain_widget \<in> TARGET_ELEMENT_TYPES"
    by (simp add: ex_types TARGET_ELEMENT_TYPES_def)
  have A: "analyse ex_index ?c (designProperties ex_plain_widget) (init_analysis [])
      = analyse_prop ex_index ?c (11, \<lparr>key = ''Justify content'', dvalue = VOption ''Stretch''\<rparr>) (init_analysis [])"
    unfolding ps by (simp add: s0)
  have "skipped (counts (processWidget ex_index ex_plain_widget ''Shop.Home'' ''Page'' ''Shop'' [])) = 1"
    and "rows (processWidget ex_index ex_plain_widget ''Shop.Home'' ''Page'' ''Shop'' []) = []"
    unfolding processWidget_target[OF ne tg] Let_def A
    by (simp_all add: analyse_prop_unmapped[OF u] spacing_stage_fields)
  with tg show ?thesis by (simp add: ex_types ex_find)
qed

theorem unmapped_counted_skipped_witness:
  "skipped (counts (processWidget ex_index ex_widget ''Shop.Home'' ''Page'' ''Shop'' [])) = 1 \<and>
   (3, \<lparr>key = ''Justify content'', dvalue = VOption ''Stretch''\<rparr>)
     \<in> set (designProperties (after (processWidget ex_index ex_widget ''Shop.Home'' ''Page'' ''Shop'' [])))"
proof -
  let ?p = "(3::nat, \<lparr>key = ''Justify content'', dvalue = VOption ''Stretch''\<rparr>)"
  have p: "?p \<in> set (designProperties ex_widget)" by (simp add: ex_widget_def ex_props_def)
  have un: "unmapped ex_index ex_context (snd ?p)"
    by (simp add: unmapped_def passed_over_def ex_names extractPropertyValue_def ex_context_type ex_find)
  have keep: "\<not> replaced_by_aggregation ex_index ex_context (designProperties ex_widget) ?p"
    by (simp add: replaced_by_aggregation_def existing_spacing_def ex_widget_def ex_props_def)
  have n: "length (filter (\<lambda>q. unmapped ex_index ex_context (snd q)) (designProperties ex_widget)) = 1"
    by (simp add: ex_widget_def ex_props_def unmapped_def passed_over_def ex_names extractPropertyValue_def
        ex_context_type findMapping_def ex_lookup lookup_key_def)
  note inst = unmapped_counted_skipped[OF ex_target ex_distinct p ex_context_def un refl, of "''Page''" "[]"]
  from inst keep n show ?thesis by simp
qed



section \<open>Spacing aggregation on a widget: theorems\<close>

text \<open>The property the aggregation creates is in the list the widget is left with.\<close>

lemma final_has_new:
  assumes ne: "designProperties w \<noteq> []" and target: "getWidgetTypeName w \<in> TARGET_ELEMENT_TYPES"
    and A: "A = analyse ix (widget_context w dn mn) (designProperties w) (init_analysis csv)"
    and items: "spacingPropertiesToMap A \<noteq> []"
  shows "(fresh_ref (designProperties w),
          aggregate (map_option snd (existing_spacing (designProperties w))) (spacingPropertiesToMap A))
           \<in> set (designProperties (after (processWidget ix w dn dt mn csv)))"
proof -
  let ?ps = "designProperties w"
  let ?c = "widget_context w dn mn"
  let ?new = "(fresh_ref ?ps, aggregate (map_option snd (existing_spacing ?ps)) (spacingPropertiesToMap A))"
  let ?staged = "fst (spacing_stage ?c (existing_spacing ?ps) ?ps A)"
  have fresh: "fresh_ref ?ps \<notin> fst ` set ?ps" by (rule fresh_ref_new)
  have staged: "?new \<in> set ?staged"
  proof (cases "existing_spacing ?ps")
    case None
    with items show ?thesis by (simp add: spacing_stage_list)
  next
    case (Some e)
    from existing_spacing_key[OF Some] have "e \<in> set ?ps" by simp
    then have "fst e \<in> fst ` set ?ps" by (rule imageI)
    with fresh have "fst ?new \<noteq> fst e" by (metis fst_conv)
    then have "?new \<in> set (remove_ref (fst e) (?ps @ [?new]))"
      by (intro remove_ref_keeps) simp_all
    with items Some show ?thesis by (simp add: spacing_stage_list)
  qed
  obtain n1 where n1: "toModify A = n1" "fst ` set n1 \<subseteq> fst ` set ?ps"
    using toModify_analyse[of ix ?c ?ps "init_analysis csv"] by (auto simp: A)
  obtain n2 where n2: "toRemove A = n2" "set n2 \<subseteq> fst ` set ?ps"
    using toRemove_analyse[of ix ?c ?ps "init_analysis csv"] by (auto simp: A)
  obtain n3 where n3: "toSetWidgetProp A = n3" "fst ` set n3 \<subseteq> fst ` set ?ps"
    using toSetWidgetProp_analyse[of ix ?c ?ps "init_analysis csv"] by (auto simp: A)
  have n4: "s_ref ` set (spacingPropertiesToMap A) \<subseteq> fst ` set ?ps"
    by (auto simp: A spacing_queue spacing_refs)
  have m: "fst ?new \<notin> fst ` set (toModify A)" using n1 fresh by auto
  have r: "fst ?new \<notin> set (allPropsToRemove A)" using n2 n4 fresh by (auto simp: set_allPropsToRemove)
  have wp: "fst ?new \<notin> fst ` set (toSetWidgetProp A)" using n3 fresh by auto
  have "?new \<in> set (execute_modifications (toModify A) ?staged)"
    using staged m by (rule execute_modifications_keeps)
  then have "?new \<in> set (execute_removals (allPropsToRemove A) (execute_modifications (toModify A) ?staged))"
    using r unfolding execute_removals_def by (rule fold_remove_ref_keeps)
  then show ?thesis
    using wp by (simp add: processWidget_target[OF ne target] Let_def A[symmetric] fold_set_widget_prop_keeps)
qed

text \<open>
  C3. For a widget with an existing compound "Spacing" property and queued contributions:
  the state is seeded from the parsed existing sides; a contribution changes only its own
  slot, so a slot no contribution writes keeps its seeded value; an existing side (with a
  value other than the neutral "None") that no contribution writes is in the final
  compound with its value unchanged; existing margin-top = Small with one padding-left
  contribution gives exactly margin-top = Small and padding-left = the new value; and an
  existing entry whose key is not a kind-side key leaves the parsed state as it is. The
  value aggregated from the existing property and the queue is the value of the "Spacing"
  property the processed widget is left with.
\<close>

theorem spacing_preserves_existing_sides:
  "(is_side d \<and> parseSpacingState (Some p) = Some parsed
       \<longrightarrow> layer t (seed_state (Some p)) d = layer t parsed d) \<and>
   ((\<forall>i \<in> set items. \<not> targets i t d)
       \<longrightarrow> layer t (fst (merge_spacing ex items)) d = layer t (seed_state ex) d) \<and>
   (is_side d \<and> dvalue p = VCompound (es1 @ (slot_key t d, VOption v) # es2) \<and> v \<noteq> [] \<and> v \<noteq> ''None'' \<and>
    (\<forall>e \<in> set es2. fst e \<noteq> slot_key t d) \<and> (\<forall>i \<in> set items. \<not> targets i t d)
       \<longrightarrow> filter (\<lambda>e. fst e = slot_key t d) (materialize (fst (merge_spacing (Some p) items)))
             = [(slot_key t d, VOption v)]) \<and>
   (spacingType item = Padding \<and> item_dir item = ''left'' \<and> item_val item \<noteq> ''None''
       \<longrightarrow> aggregate (Some \<lparr>key = ''Spacing'', dvalue = VCompound [(''margin-top'', VOption ''Small'')]\<rparr>) [item]
             = \<lparr>key = ''Spacing'',
                dvalue = VCompound [(''margin-top'', VOption ''Small''), (''padding-left'', VOption (item_val item))]\<rparr>) \<and>
   ((\<forall>t' d'. is_side d' \<longrightarrow> fst e \<noteq> slot_key t' d') \<longrightarrow> parse_entry e st = st) \<and>
   (getWidgetTypeName w \<in> TARGET_ELEMENT_TYPES \<and> existing_spacing (designProperties w) = Some x \<and>
    spacingPropertiesToMap (analyse ix (widget_context w dn mn) (designProperties w) (init_analysis csv)) = queue \<and>
    queue \<noteq> []
       \<longrightarrow> (fresh_ref (designProperties w), aggregate (Some (snd x)) queue)
             \<in> set (designProperties (after (processWidget ix w dn dt mn csv))))"
proof (intro conjI impI)
  assume "is_side d \<and> parseSpacingState (Some p) = Some parsed"
  then show "layer t (seed_state (Some p)) d = layer t parsed d"
    by (simp add: layer_seed_state)
next
  assume "\<forall>i \<in> set items. \<not> targets i t d"
  then show "layer t (fst (merge_spacing ex items)) d = layer t (seed_state ex) d"
    by (simp add: fst_merge_spacing layer_fold_untargeted)
next
  assume a: "is_side d \<and> dvalue p = VCompound (es1 @ (slot_key t d, VOption v) # es2) \<and> v \<noteq> [] \<and> v \<noteq> ''None'' \<and>
    (\<forall>e \<in> set es2. fst e \<noteq> slot_key t d) \<and> (\<forall>i \<in> set items. \<not> targets i t d)"
  let ?es = "es1 @ (slot_key t d, VOption v) # es2"
  have parsed: "parseSpacingState (Some p) = Some (fold parse_entry ?es none_state)"
    using a by (simp add: parseSpacingState_def)
  have "layer t (seed_state (Some p)) d = layer t (fold parse_entry ?es none_state) d"
    using a parsed by (simp add: layer_seed_state)
  also have "\<dots> = Some v" using a by (intro layer_fold_parse_last) simp_all
  finally have "layer t (fst (merge_spacing (Some p) items)) d = Some v"
    using a by (simp add: fst_merge_spacing layer_fold_untargeted)
  then show "filter (\<lambda>e. fst e = slot_key t d) (materialize (fst (merge_spacing (Some p) items)))
             = [(slot_key t d, VOption v)]"
    using a by (simp add: filter_materialize addInnerProp_def side_val_def show_undefined_def)
next
  assume a: "spacingType item = Padding \<and> item_dir item = ''left'' \<and> item_val item \<noteq> ''None''"
  then show "aggregate (Some \<lparr>key = ''Spacing'', dvalue = VCompound [(''margin-top'', VOption ''Small'')]\<rparr>) [item]
             = \<lparr>key = ''Spacing'',
                dvalue = VCompound [(''margin-top'', VOption ''Small''), (''padding-left'', VOption (item_val item))]\<rparr>"
    by (simp add: aggregate_def fst_merge_spacing seed_state_def parseSpacingState_def parse_entry_def
        is_side_def none_state_def none_sides_def overwrite_def set_layer_def layer_def materialize_def
        addInnerProp_def side_val_def show_undefined_def map_add_def)
next
  assume "\<forall>t' d'. is_side d' \<longrightarrow> fst e \<noteq> slot_key t' d'"
  then show "parse_entry e st = st" by (rule parse_entry_malformed)
next
  assume a: "getWidgetTypeName w \<in> TARGET_ELEMENT_TYPES \<and> existing_spacing (designProperties w) = Some x \<and>
    spacingPropertiesToMap (analyse ix (widget_context w dn mn) (designProperties w) (init_analysis csv)) = queue \<and>
    queue \<noteq> []"
  then have "x \<in> set (designProperties w)" by (simp add: existing_spacing_key)
  then have ne: "designProperties w \<noteq> []" by auto
  from a have tg: "getWidgetTypeName w \<in> TARGET_ELEMENT_TYPES" by simp
  from final_has_new[OF ne tg refl, of ix dn mn csv dt] a
  show "(fresh_ref (designProperties w), aggregate (Some (snd x)) queue)
          \<in> set (designProperties (after (processWidget ix w dn dt mn csv)))"
    by simp
qed


theorem spacing_preserves_existing_sides_witness:
  "layer Margin (seed_state (Some ex_spacing_prop)) ''top'' = Some ''Small'' \<and>
   layer Margin (fst (merge_spacing (Some ex_spacing_prop) [ex_item_padding_left])) ''top'' = Some ''Small'' \<and>
   filter (\<lambda>e. fst e = ''margin-top'')
      (materialize (fst (merge_spacing (Some ex_spacing_prop) [ex_item_padding_left])))
     = [(''margin-top'', VOption ''Small'')] \<and>
   aggregate (Some ex_spacing_prop) [ex_item_padding_left]
     = \<lparr>key = ''Spacing'',
        dvalue = VCompound [(''margin-top'', VOption ''Small''), (''padding-left'', VOption ''L'')]\<rparr> \<and>
   parse_entry (''margin_top'', VOption ''Small'') none_state = none_state \<and>
   (12, \<lparr>key = ''Spacing'',
         dvalue = VCompound [(''margin-top'', VOption ''Small''), (''padding-left'', VOption ''L'')]\<rparr>)
     \<in> set (designProperties (after (processWidget ex_index ex_aggregate_widget ''Shop.Home'' ''Page'' ''Shop'' [])))"
proof -
  note inst = spacing_preserves_existing_sides
    [where d = "''top''" and t = Margin and p = ex_spacing_prop and parsed = ex_state
       and items = "[ex_item_padding_left]" and ex = "Some ex_spacing_prop"
       and ?es1.0 = "[]" and v = "''Small''" and ?es2.0 = "[]" and item = ex_item_padding_left
       and e = "(''margin_top'', VOption ''Small'')" and st = none_state
       and w = ex_aggregate_widget and x = "(10, ex_spacing_prop)" and ix = ex_index
       and dn = "''Shop.Home''" and mn = "''Shop''" and csv = "[]" and queue = "[ex_item_padding_left]"
       and dt = "''Page''"]
  have side: "is_side ''top''" by (simp add: is_side_def)
  have parsed: "parseSpacingState (Some ex_spacing_prop) = Some ex_state"
    by (simp add: parseSpacingState_def ex_spacing_prop_def parse_entry_def is_side_def none_state_def
        ex_state_def)
  have untargeted: "\<forall>i \<in> set [ex_item_padding_left]. \<not> targets i Margin ''top''"
    by (simp add: targets_def ex_item_padding_left_def)
  have c1: "layer Margin (seed_state (Some ex_spacing_prop)) ''top'' = Some ''Small''"
    using inst[THEN conjunct1] side parsed by (simp add: ex_state_def layer_def)
  have c2: "layer Margin (fst (merge_spacing (Some ex_spacing_prop) [ex_item_padding_left])) ''top'' = Some ''Small''"
    using inst[THEN conjunct2, THEN conjunct1] untargeted c1 by simp
  have c3: "filter (\<lambda>e. fst e = ''margin-top'')
      (materialize (fst (merge_spacing (Some ex_spacing_prop) [ex_item_padding_left])))
     = [(''margin-top'', VOption ''Small'')]"
    using inst[THEN conjunct2, THEN conjunct2, THEN conjunct1] side untargeted
    by (simp add: ex_spacing_prop_def slot_key_def type_name_def)
  have c4: "aggregate (Some ex_spacing_prop) [ex_item_padding_left]
     = \<lparr>key = ''Spacing'',
        dvalue = VCompound [(''margin-top'', VOption ''Small''), (''padding-left'', VOption ''L'')]\<rparr>"
    using inst[THEN conjunct2, THEN conjunct2, THEN conjunct2, THEN conjunct1]
    by (simp add: ex_spacing_prop_def ex_item_padding_left_def ex_rule_padding_left_def item_dir_def item_val_def)
  have c5: "parse_entry (''margin_top'', VOption ''Small'') none_state = none_state"
    using inst[THEN conjunct2, THEN conjunct2, THEN conjunct2, THEN conjunct2, THEN conjunct1]
    by (auto simp: slot_key_def type_name_def is_side_def split: spacing_type.splits)
  let ?c = "widget_context ex_aggregate_widget ''Shop.Home'' ''Shop''"
  have ps: "designProperties ex_aggregate_widget =
      [(10, ex_spacing_prop), (11, \<lparr>key = ''Padding left'', dvalue = VOption ''Large''\<rparr>)]"
    by (simp add: ex_aggregate_widget_def)
  have ty: "getWidgetTypeName ex_aggregate_widget = ''DivContainer''"
    by (simp add: getWidgetTypeName_def ex_aggregate_widget_def)
  have tg: "getWidgetTypeName ex_aggregate_widget \<in> TARGET_ELEMENT_TYPES"
    by (simp add: ty TARGET_ELEMENT_TYPES_def)
  have ex: "existing_spacing (designProperties ex_aggregate_widget) = Some (10, ex_spacing_prop)"
    by (simp add: ps existing_spacing_def ex_spacing_prop_def)
  have k0: "contribution ex_index ?c (10, ex_spacing_prop) = None"
    by (simp add: contribution_def rule_of_def passed_over_def ex_names ex_spacing_prop_def)
  have k1: "contribution ex_index ?c (11, \<lparr>key = ''Padding left'', dvalue = VOption ''Large''\<rparr>)
      = Some ex_item_padding_left"
    by (simp add: contribution_def rule_of_def passed_over_def ex_names extractPropertyValue_def
        findMapping_def ex_lookup lookup_key_def widget_context_def ty is_spacing_rule_def
        ex_item_padding_left_def ex_rule_padding_left_def)
  have q: "spacingPropertiesToMap (analyse ex_index ?c (designProperties ex_aggregate_widget) (init_analysis []))
      = [ex_item_padding_left]"
    by (simp only: spacing_queue) (simp add: ps List.map_filter_simps k0 k1)
  have fr: "fresh_ref (designProperties ex_aggregate_widget) = 12" by (simp add: ps fresh_ref_def)
  have c6: "(12, \<lparr>key = ''Spacing'',
         dvalue = VCompound [(''margin-top'', VOption ''Small''), (''padding-left'', VOption ''L'')]\<rparr>)
     \<in> set (designProperties (after (processWidget ex_index ex_aggregate_widget ''Shop.Home'' ''Page'' ''Shop'' [])))"
    using inst[THEN conjunct2, THEN conjunct2, THEN conjunct2, THEN conjunct2, THEN conjunct2] tg ex q
    by (simp add: fr c4)
  from c1 c2 c3 c4 c5 c6 show ?thesis by simp
qed

text \<open>
  C8, as stated, fails: the existing top margin is "Small" and a contribution writes
  "Small" to the same slot; the line printed for it has no \<open>(was: ...)\<close> part.
\<close>

theorem spacing_log_identical_value_counterexample:
  "log_was (snd (merge_spacing (Some ex_spacing_prop) [ex_item_margin_top]) ! 0) = None"
  by (simp add: merge_spacing_def apply_item_def mapping_line_def seed_state_def parseSpacingState_def
      ex_spacing_prop_def parse_entry_def is_side_def none_state_def none_sides_def layer_def
      ex_item_margin_top_def ex_rule_margin_top_def item_dir_def item_val_def map_add_def)

text \<open>
  C8, amended. Contributions are applied in the order of the queue, which is the order
  of their properties in the widget's list, and a later one overwrites an earlier one for
  the same slot: the final value of a slot is the value of the last contribution that
  writes it. One line is printed per contribution, with the new value; it carries the
  previous value of the slot exactly when that value differs from the new one, and
  nothing about the previous value when they are identical.
\<close>

theorem spacing_overwrite_and_log:
  "(items = xs @ i # ys \<and> (\<forall>j \<in> set ys. \<not> targets j (spacingType i) (item_dir i))
       \<longrightarrow> layer (spacingType i) (fst (merge_spacing ex items)) (item_dir i) = Some (item_val i)) \<and>
   length (snd (merge_spacing ex items)) = length items \<and>
   (\<forall>n < length items.
      log_val (snd (merge_spacing ex items) ! n) = item_val (items ! n) \<and>
      log_was (snd (merge_spacing ex items) ! n) =
        (let oldVal = layer (spacingType (items ! n)) (fst (merge_spacing ex (take n items))) (item_dir (items ! n))
         in if oldVal = Some (item_val (items ! n)) then None else Some (show_undefined oldVal))) \<and>
   spacingPropertiesToMap (analyse ix c ps (init_analysis csv)) = List.map_filter (contribution ix c) ps"
proof (intro conjI impI allI)
  assume "items = xs @ i # ys \<and> (\<forall>j \<in> set ys. \<not> targets j (spacingType i) (item_dir i))"
  then show "layer (spacingType i) (fst (merge_spacing ex items)) (item_dir i) = Some (item_val i)"
    by (simp add: fst_merge_spacing layer_fold_untargeted layer_overwrite)
next
  show "length (snd (merge_spacing ex items)) = length items"
    using logs_nth[of items "seed_state ex"] by (simp add: merge_spacing_def)
next
  fix n assume n: "n < length items"
  have line: "snd (merge_spacing ex items) ! n =
      mapping_line (items ! n) (fst (merge_spacing ex (take n items)))"
    using logs_nth[of items "seed_state ex"] n by (simp add: merge_spacing_def fst_fold_apply_item)
  show "log_val (snd (merge_spacing ex items) ! n) = item_val (items ! n)"
    by (simp add: line mapping_line_def Let_def)
  show "log_was (snd (merge_spacing ex items) ! n) =
        (let oldVal = layer (spacingType (items ! n)) (fst (merge_spacing ex (take n items))) (item_dir (items ! n))
         in if oldVal = Some (item_val (items ! n)) then None else Some (show_undefined oldVal))"
    by (simp add: line mapping_line_def Let_def)
next
  show "spacingPropertiesToMap (analyse ix c ps (init_analysis csv)) = List.map_filter (contribution ix c) ps"
    by (simp add: spacing_queue)
qed

theorem spacing_overwrite_and_log_witness:
  "layer Margin (fst (merge_spacing None [ex_item_padding_left, ex_item_margin_top, ex_item_margin_top])) ''top''
     = Some ''Small'' \<and>
   log_was (snd (merge_spacing None [ex_item_padding_left, ex_item_margin_top, ex_item_margin_top]) ! 1)
     = Some ''None'' \<and>
   log_was (snd (merge_spacing None [ex_item_padding_left, ex_item_margin_top, ex_item_margin_top]) ! 2)
     = None"
proof -
  let ?items = "[ex_item_padding_left, ex_item_margin_top, ex_item_margin_top]"
  note inst = spacing_overwrite_and_log
    [where items = ?items and xs = "[ex_item_padding_left, ex_item_margin_top]" and i = ex_item_margin_top
       and ys = "[]" and ex = None]
  have c1: "layer Margin (fst (merge_spacing None ?items)) ''top'' = Some ''Small''"
    using inst[THEN conjunct1]
    by (simp add: ex_item_margin_top_def ex_rule_margin_top_def item_dir_def item_val_def)
  have c2: "log_was (snd (merge_spacing None ?items) ! 1) = Some ''None''"
    using inst[THEN conjunct2, THEN conjunct2, THEN conjunct1, rule_format, of 1]
    by (simp add: fst_merge_spacing seed_state_def none_state_def none_sides_def overwrite_def layer_def
        set_layer_def ex_item_margin_top_def ex_rule_margin_top_def ex_item_padding_left_def
        ex_rule_padding_left_def item_dir_def item_val_def show_undefined_def)
  have c3: "log_was (snd (merge_spacing None ?items) ! 2) = None"
    using inst[THEN conjunct2, THEN conjunct2, THEN conjunct1, rule_format, of 2]
    by (simp add: fst_merge_spacing seed_state_def none_state_def none_sides_def overwrite_def layer_def
        set_layer_def ex_item_margin_top_def ex_rule_margin_top_def ex_item_padding_left_def
        ex_rule_padding_left_def item_dir_def item_val_def show_undefined_def)
  from c1 c2 c3 show ?thesis by simp
qed




section \<open>Orchestrator: theorems\<close>

lemma analyse_prop_queues:
  assumes ty: "widgetType c = widgetType c'"
    and eq: "toModify st = toModify st'" "toRemove st = toRemove st'"
      "toSetWidgetProp st = toSetWidgetProp st'"
      "mappedTargetProperties st = mappedTargetProperties st'"
      "spacingPropertiesToMap st = spacingPropertiesToMap st'"
  shows "toModify (analyse_prop ix c p st) = toModify (analyse_prop ix c' p st') \<and>
         toRemove (analyse_prop ix c p st) = toRemove (analyse_prop ix c' p st') \<and>
         toSetWidgetProp (analyse_prop ix c p st) = toSetWidgetProp (analyse_prop ix c' p st') \<and>
         mappedTargetProperties (analyse_prop ix c p st) = mappedTargetProperties (analyse_prop ix c' p st') \<and>
         spacingPropertiesToMap (analyse_prop ix c p st) = spacingPropertiesToMap (analyse_prop ix c' p st')"
proof -
  obtain t where t: "widgetType c = t" "widgetType c' = t" using ty by simp
  have r: "rule_of ix c' (snd p) = rule_of ix c (snd p)" by (simp add: rule_of_def t)
  have u: "unmapped ix c' (snd p) = unmapped ix c (snd p)" by (simp add: unmapped_def t)
  show ?thesis
  proof (cases rule: prop_cases[of ix "snd p" c])
    case passed
    then show ?thesis using eq by (simp add: analyse_prop_passed_over)
  next
    case unmapped
    with u have "unmapped ix c' (snd p)" by simp
    with unmapped show ?thesis using eq by (simp add: analyse_prop_unmapped)
  next
    case (rule m)
    with r have "rule_of ix c' (snd p) = Some m" by simp
    with rule show ?thesis using eq
      by (cases "action m") (simp_all add: analyse_prop_rule apply_rule_def Let_def)
  qed
qed

lemma analyse_queues:
  assumes ty: "widgetType c = widgetType c'"
    and eq: "toModify st = toModify st'" "toRemove st = toRemove st'"
      "toSetWidgetProp st = toSetWidgetProp st'"
      "mappedTargetProperties st = mappedTargetProperties st'"
      "spacingPropertiesToMap st = spacingPropertiesToMap st'"
  shows "toModify (analyse ix c ps st) = toModify (analyse ix c' ps st') \<and>
         toRemove (analyse ix c ps st) = toRemove (analyse ix c' ps st') \<and>
         toSetWidgetProp (analyse ix c ps st) = toSetWidgetProp (analyse ix c' ps st') \<and>
         mappedTargetProperties (analyse ix c ps st) = mappedTargetProperties (analyse ix c' ps st') \<and>
         spacingPropertiesToMap (analyse ix c ps st) = spacingPropertiesToMap (analyse ix c' ps st')"
  using eq
proof (induction ps arbitrary: st st')
  case Nil
  then show ?case by simp
next
  case (Cons p ps)
  note step = analyse_prop_queues[OF ty Cons.prems, of ix p]
  show ?case
    using Cons.IH[of "analyse_prop ix c p st" "analyse_prop ix c' p st'"] step by simp
qed

text \<open>The widget \<open>processWidget\<close> leaves depends on the rules and the widget only.\<close>

lemma after_processWidget:
  "after (processWidget ix w dn dt mn csv) = after (processWidget ix w dn' dt' mn' csv')"
proof (cases "designProperties w = [] \<or> getWidgetTypeName w \<notin> TARGET_ELEMENT_TYPES")
  case True
  then show ?thesis by (simp add: processWidget_other)
next
  case False
  then have ne: "designProperties w \<noteq> []" and tg: "getWidgetTypeName w \<in> TARGET_ELEMENT_TYPES" by simp_all
  let ?ps = "designProperties w"
  let ?c = "widget_context w dn mn"
  let ?c' = "widget_context w dn' mn'"
  let ?A = "analyse ix ?c ?ps (init_analysis csv)"
  let ?A' = "analyse ix ?c' ?ps (init_analysis csv')"
  have ty: "widgetType ?c = widgetType ?c'" by (simp add: widget_context_def)
  obtain tm tr tw ts where q: "toModify ?A = tm" "toModify ?A' = tm" "toRemove ?A = tr" "toRemove ?A' = tr"
    "toSetWidgetProp ?A = tw" "toSetWidgetProp ?A' = tw"
    "spacingPropertiesToMap ?A = ts" "spacingPropertiesToMap ?A' = ts"
    using analyse_queues[OF ty, of "init_analysis csv" "init_analysis csv'" ix ?ps] by simp
  have rm: "allPropsToRemove ?A = allPropsToRemove ?A'" by (simp add: allPropsToRemove_def q)
  have st: "fst (spacing_stage ?c (existing_spacing ?ps) ?ps ?A) = fst (spacing_stage ?c' (existing_spacing ?ps) ?ps ?A')"
    by (simp add: spacing_stage_list q split: option.splits)
  show ?thesis
    unfolding processWidget_target[OF ne tg] Let_def by (simp add: q rm st)
qed

lemma after_processed: "after (processWidget ix w dn dt mn csv) = processed ix w"
  unfolding processed_def by (rule after_processWidget)

lemma fst_visit_widgets:
  "fst (fold (visit_widget ix dn tn mn) ws acc) = fst acc @ map (processed ix) ws"
  by (induction ws arbitrary: acc) (simp_all add: visit_widget_def Let_def after_processed)

lemma fst_process_document:
  "fst (process_document ix tn mn doc acc) = document_after ix tn doc"
  by (simp add: process_document_def document_after_def Let_def fst_visit_widgets remove_page_props_def)

lemma fst_processDocumentCollection:
  "fst (processDocumentCollection ix (belongs_to mName) tn mName docs acc) = collection_after ix tn mName docs"
  by (induction docs arbitrary: acc) (simp_all add: collection_after_def Let_def fst_process_document)

lemma fst_process_module: "fst (process_module ix mName acc) = module_after ix mName (fst acc)"
  by (simp add: process_module_def module_after_def Let_def fst_processDocumentCollection)

lemma fst_process_modules:
  "fst (fold (process_module ix) ms acc) = fold (module_after ix) ms (fst acc)"
  by (induction ms arbitrary: acc) (simp_all add: fst_process_module)

lemma memory_main:
  "loadMappings file = Some ix \<Longrightarrow> configured \<Longrightarrow>
     memory (main file configured model answer) = fold (module_after ix) (allModules model) model"
  using fst_process_modules[of ix "allModules model" "(model, zero_result, [])"]
  by (simp add: main_def Let_def)

text \<open>
  C2, amended. The changes are applied to the model in memory while the elements are
  processed, before the operator is asked. The model in memory at the end of a run that
  loaded its rules is the model the passes over the modules leave: in every document a
  pass selects, every widget is the widget \<open>processWidget\<close> leaves, which is the
  widget with the "Spacing" property replaced, the queued rewrites and deletions executed
  and the queued widget properties set (a widget without design properties or of another
  type is left as it is). The model in memory, the totals and the report rows do not
  depend on the answer. The operator is asked only when the number of modified properties
  is not zero. When the operator declines, nothing is flushed and no commit is sent to the
  repository; a commit is sent only after the operator, asked, has confirmed.
\<close>

theorem commit_only_after_confirmation:
  "(\<not> askConfirmation answer \<longrightarrow>
      committed (main file configured model answer) = None \<and> \<not> flushed (main file configured model answer)) \<and>
   (committed (main file configured model answer) \<noteq> None \<longrightarrow>
      askConfirmation answer \<and> asked (main file configured model answer)) \<and>
   (asked (main file configured model answer) \<longrightarrow>
      ending (main file configured model answer) = Completed \<and>
      0 < mapped (totals (main file configured model answer)) +
          removed (totals (main file configured model answer)) +
          widgetPropsMapped (totals (main file configured model answer))) \<and>
   memory (main file configured model answer) = memory (main file configured model answer') \<and>
   totals (main file configured model answer) = totals (main file configured model answer') \<and>
   report (main file configured model answer) = report (main file configured model answer') \<and>
   (loadMappings file = Some ix \<and> configured \<longrightarrow>
      memory (main file configured model answer) = fold (module_after ix) (allModules model) model) \<and>
   after (processWidget ix w dn dt mn csv) = processed ix w \<and>
   (designProperties w \<noteq> [] \<and> getWidgetTypeName w \<in> TARGET_ELEMENT_TYPES \<longrightarrow>
      processed ix w =
        (let c = widget_context w dn mn;
             A = analyse ix c (designProperties w) (init_analysis csv);
             replaced = fst (spacing_stage c (existing_spacing (designProperties w)) (designProperties w) A);
             rewritten = execute_modifications (toModify A) replaced;
             deleted = execute_removals (allPropsToRemove A) rewritten
         in fold set_widget_prop (toSetWidgetProp A) (w\<lparr>designProperties := deleted\<rparr>))) \<and>
   (designProperties w = [] \<or> getWidgetTypeName w \<notin> TARGET_ELEMENT_TYPES \<longrightarrow> processed ix w = w)"
proof -
  have run: "(\<not> askConfirmation answer \<longrightarrow>
      committed (main file configured model answer) = None \<and> \<not> flushed (main file configured model answer)) \<and>
   (committed (main file configured model answer) \<noteq> None \<longrightarrow>
      askConfirmation answer \<and> asked (main file configured model answer)) \<and>
   (asked (main file configured model answer) \<longrightarrow>
      ending (main file configured model answer) = Completed \<and>
      0 < mapped (totals (main file configured model answer)) +
          removed (totals (main file configured model answer)) +
          widgetPropsMapped (totals (main file configured model answer))) \<and>
   memory (main file configured model answer) = memory (main file configured model answer') \<and>
   totals (main file configured model answer) = totals (main file configured model answer') \<and>
   report (main file configured model answer) = report (main file configured model answer')"
    by (simp add: main_def untouched_def Let_def split: option.splits)
  have mem: "loadMappings file = Some ix \<and> configured \<longrightarrow>
      memory (main file configured model answer) = fold (module_after ix) (allModules model) model"
    by (simp add: memory_main)
  have indep: "after (processWidget ix w dn dt mn csv) = processed ix w"
    by (rule after_processed)
  have queues: "designProperties w \<noteq> [] \<and> getWidgetTypeName w \<in> TARGET_ELEMENT_TYPES \<longrightarrow>
      processed ix w =
        (let c = widget_context w dn mn;
             A = analyse ix c (designProperties w) (init_analysis csv);
             replaced = fst (spacing_stage c (existing_spacing (designProperties w)) (designProperties w) A);
             rewritten = execute_modifications (toModify A) replaced;
             deleted = execute_removals (allPropsToRemove A) rewritten
         in fold set_widget_prop (toSetWidgetProp A) (w\<lparr>designProperties := deleted\<rparr>))"
    unfolding after_processed[of ix w dn dt mn csv, symmetric]
    by (simp add: processWidget_target Let_def)
  have other: "designProperties w = [] \<or> getWidgetTypeName w \<notin> TARGET_ELEMENT_TYPES \<longrightarrow> processed ix w = w"
    unfolding after_processed[of ix w dn dt mn csv, symmetric]
    using processWidget_other[of w ix dn dt mn csv] by auto
  from run mem indep queues other show ?thesis
    by - (intro conjI, (elim conjE, assumption)+)
qed

lemma ex_single_out:
  "processWidget ex_index ex_single_widget ''Shop.Home'' ''Page'' ''Shop'' [] =
     \<lparr>counts = zero_result\<lparr>props := 1, mapped := 1\<rparr>,
      after = ex_single_widget\<lparr>designProperties := [(10, \<lparr>key = ''Align content'', dvalue = VOption ''Center''\<rparr>)]\<rparr>,
      rows = [csv_row (widget_context ex_single_widget ''Shop.Home'' ''Shop'') ''Justify content'' ''Center''
                Mapped ''Align content'' ''Center'' []],
      printed = []\<rparr>"
proof -
  let ?c = "widget_context ex_single_widget ''Shop.Home'' ''Shop''"
  let ?p = "(10::nat, \<lparr>key = ''Justify content'', dvalue = VOption ''Center''\<rparr>)"
  have ps: "designProperties ex_single_widget = [?p]" by (simp add: ex_single_widget_def)
  have ty: "getWidgetTypeName ex_single_widget = ''DivContainer''"
    by (simp add: getWidgetTypeName_def ex_single_widget_def)
  have tyc: "widgetType ?c = ''DivContainer''" by (simp add: widget_context_def ty)
  have tg: "getWidgetTypeName ex_single_widget \<in> TARGET_ELEMENT_TYPES"
    by (simp add: ty TARGET_ELEMENT_TYPES_def)
  have ne: "designProperties ex_single_widget \<noteq> []" by (simp add: ps)
  have r: "rule_of ex_index ?c (snd ?p) = Some ex_rule_first"
    by (simp add: rule_of_def passed_over_def ex_names extractPropertyValue_def tyc findMapping_def
        ex_lookup lookup_key_def)
  have A: "analyse ex_index ?c (designProperties ex_single_widget) (init_analysis []) =
      (init_analysis [])\<lparr>result := zero_result\<lparr>props := 1, mapped := 1\<rparr>,
         toModify := [(10, ex_rule_first)], mappedTargetProperties := {''Align content''},
         csvData := [csv_row ?c ''Justify content'' ''Center'' Mapped ''Align content'' ''Center'' []]\<rparr>"
    unfolding ps
    by (simp add: analyse_prop_rule[OF r] apply_rule_def ex_rule_first_def extractPropertyValue_def
        init_analysis_def Let_def)
  show ?thesis
    unfolding processWidget_target[OF ne tg] Let_def A
    by (simp add: ps spacing_stage_def execute_modifications_def update_ref_def applyMapping_def
        ex_rule_first_def allPropsToRemove_def execute_removals_def init_analysis_def)
qed

lemma ex_run:
  "fold (process_module ex_index) (allModules ex_model) (ex_model, zero_result, []) =
      (ex_model\<lparr>allPages := [ex_page\<lparr>docWidgets :=
          [ex_single_widget\<lparr>designProperties := [(10, \<lparr>key = ''Align content'', dvalue = VOption ''Center''\<rparr>)]\<rparr>]\<rparr>]\<rparr>,
       zero_result\<lparr>widgets := 1, props := 1, mapped := 1\<rparr>,
       [csv_row (widget_context ex_single_widget ''Shop.Home'' ''Shop'') ''Justify content'' ''Center''
                Mapped ''Align content'' ''Center'' []])"
proof -
  have w: "docWidgets ex_page = [ex_single_widget]" by (simp add: ex_page_def)
  have nm: "doc_name ex_page = ''Shop.Home''" by (simp add: doc_name_def ex_page_def or_else_def)
  have doc: "process_document ex_index ''Page'' ''Shop'' ex_page (zero_result, []) =
      (ex_page\<lparr>docWidgets :=
          [ex_single_widget\<lparr>designProperties := [(10, \<lparr>key = ''Align content'', dvalue = VOption ''Center''\<rparr>)]\<rparr>]\<rparr>,
       zero_result\<lparr>widgets := 1, props := 1, mapped := 1\<rparr>,
       [csv_row (widget_context ex_single_widget ''Shop.Home'' ''Shop'') ''Justify content'' ''Center''
                Mapped ''Align content'' ''Center'' []])"
    by (simp add: process_document_def nm w visit_widget_def ex_single_out Let_def zero_result_def)
       (simp add: ex_page_def is_native_layout_def)
  have bel: "belongs_to ''Shop'' ex_page" by (simp add: belongs_to_def ex_page_def startsWith_def)
  show ?thesis
    by (simp add: ex_model_def process_module_def Let_def bel doc) (simp add: zero_result_def)
qed

lemma ex_main:
  "main (Some ex_file) True ex_model answer =
      \<lparr>ending = Completed,
       memory = ex_model\<lparr>allPages := [ex_page\<lparr>docWidgets :=
          [ex_single_widget\<lparr>designProperties := [(10, \<lparr>key = ''Align content'', dvalue = VOption ''Center''\<rparr>)]\<rparr>]\<rparr>]\<rparr>,
       totals = zero_result\<lparr>widgets := 1, props := 1, mapped := 1\<rparr>,
       report = [csv_row (widget_context ex_single_widget ''Shop.Home'' ''Shop'') ''Justify content'' ''Center''
                Mapped ''Align content'' ''Center'' []],
       asked = True, flushed = askConfirmation answer,
       committed = (if askConfirmation answer then Some (1, 1, 0, 0) else None)\<rparr>"
proof -
  have ix: "loadMappings (Some ex_file) = Some ex_index"
    by (simp add: loadMappings_def ex_file_def ex_index_def)
  show ?thesis by (simp add: main_def ix ex_run Let_def)
qed

text \<open>
  C2, as stated, fails: the operator answers "no", and the design property of the widget
  has been rewritten in the model in memory all the same; only the commit is not made.
\<close>

theorem changes_applied_without_confirmation_counterexample:
  "\<not> askConfirmation ''no'' \<and>
   docWidgets ex_page = [ex_single_widget] \<and>
   designProperties ex_single_widget = [(10, \<lparr>key = ''Justify content'', dvalue = VOption ''Center''\<rparr>)] \<and>
   allPages (memory (main (Some ex_file) True ex_model ''no'')) =
     [ex_page\<lparr>docWidgets :=
        [ex_single_widget\<lparr>designProperties := [(10, \<lparr>key = ''Align content'', dvalue = VOption ''Center''\<rparr>)]\<rparr>]\<rparr>] \<and>
   committed (main (Some ex_file) True ex_model ''no'') = None \<and>
   mapped (totals (main (Some ex_file) True ex_model ''no'')) = 1"
proof -
  have no: "\<not> askConfirmation ''no''" by (simp add: askConfirmation_def)
  have w: "docWidgets ex_page = [ex_single_widget]" by (simp add: ex_page_def)
  have ps: "designProperties ex_single_widget = [(10, \<lparr>key = ''Justify content'', dvalue = VOption ''Center''\<rparr>)]"
    by (simp add: ex_single_widget_def)
  show ?thesis using no w ps by (simp add: ex_main)
qed

theorem commit_only_after_confirmation_witness:
  "committed (main (Some ex_file) True ex_model ''no'') = None \<and>
   \<not> flushed (main (Some ex_file) True ex_model ''no'') \<and>
   askConfirmation ''yes'' \<and>
   0 < mapped (totals (main (Some ex_file) True ex_model ''no'')) +
       removed (totals (main (Some ex_file) True ex_model ''no'')) +
       widgetPropsMapped (totals (main (Some ex_file) True ex_model ''no'')) \<and>
   memory (main (Some ex_file) True ex_model ''no'') = memory (main (Some ex_file) True ex_model ''yes'') \<and>
   allPages (fold (module_after ex_index) (allModules ex_model) ex_model) =
     [ex_page\<lparr>docWidgets :=
        [ex_single_widget\<lparr>designProperties := [(10, \<lparr>key = ''Align content'', dvalue = VOption ''Center''\<rparr>)]\<rparr>]\<rparr>] \<and>
   processed ex_index ex_single_widget =
     ex_single_widget\<lparr>designProperties := [(10, \<lparr>key = ''Align content'', dvalue = VOption ''Center''\<rparr>)]\<rparr>"
proof -
  have no: "\<not> askConfirmation ''no''" by (simp add: askConfirmation_def)
  have yes: "committed (main (Some ex_file) True ex_model ''yes'') \<noteq> None"
    by (simp add: ex_main askConfirmation_def)
  have ask: "asked (main (Some ex_file) True ex_model ''no'')" by (simp add: ex_main)
  have ix: "loadMappings (Some ex_file) = Some ex_index \<and> True"
    by (simp add: loadMappings_def ex_file_def ex_index_def)
  note d = commit_only_after_confirmation[of "''no''" "Some ex_file" True ex_model "''yes''" ex_index
      ex_single_widget "''Shop.Home''" "''Page''" "''Shop''" "[]"]
  note c = commit_only_after_confirmation[of "''yes''" "Some ex_file" True ex_model "''no''" ex_index
      ex_single_widget "''Shop.Home''" "''Page''" "''Shop''" "[]"]
  note 1 = d[THEN conjunct1, rule_format, OF no]
  note 2 = c[THEN conjunct2, THEN conjunct1, rule_format, OF yes, THEN conjunct1]
  note 3 = d[THEN conjunct2, THEN conjunct2, THEN conjunct1, rule_format, OF ask, THEN conjunct2]
  note 4 = d[THEN conjunct2, THEN conjunct2, THEN conjunct2, THEN conjunct1]
  note rest = d[THEN conjunct2, THEN conjunct2, THEN conjunct2, THEN conjunct2, THEN conjunct2, THEN conjunct2]
  note 5 = rest[THEN conjunct1, rule_format, OF ix]
  note 6 = rest[THEN conjunct2, THEN conjunct1]
  have 7: "allPages (fold (module_after ex_index) (allModules ex_model) ex_model) =
     [ex_page\<lparr>docWidgets :=
        [ex_single_widget\<lparr>designProperties := [(10, \<lparr>key = ''Align content'', dvalue = VOption ''Center''\<rparr>)]\<rparr>]\<rparr>]"
    unfolding 5[symmetric] by (simp add: ex_main)
  have 8: "processed ex_index ex_single_widget =
     ex_single_widget\<lparr>designProperties := [(10, \<lparr>key = ''Align content'', dvalue = VOption ''Center''\<rparr>)]\<rparr>"
    unfolding 6[symmetric] by (simp add: ex_single_out)
  from 1 2 3 4 7 8 show ?thesis by (intro conjI) simp_all
qed

end
